theory Spec2Isabelle
  imports Main
begin

section \<open>Python strings\<close>

text \<open>
  The two scripts, \<^verbatim>\<open>placeholder_image_replacer.py\<close> and \<^verbatim>\<open>generate_articles.py\<close>,
  work on Python \<^verbatim>\<open>str\<close> values. A \<^typ>\<open>string\<close> here is the list of the code points
  of such a value, for code points below 256 (one \<^typ>\<open>char\<close> each). The functions of
  this section are the \<^verbatim>\<open>str\<close> methods the scripts call.
\<close>

definition newline :: char where
  "newline = CHR 0x0A"

text \<open>\<^verbatim>\<open>c.isspace()\<close>: below 256 the white space characters are 9 to 13, 28 to 32, 133 and 160.\<close>

definition isspace :: "char \<Rightarrow> bool" where
  "isspace c =
     (let n = (of_char c :: nat)
      in (9 \<le> n \<and> n \<le> 13) \<or> (28 \<le> n \<and> n \<le> 32) \<or> n = 133 \<or> n = 160)"

text \<open>\<^verbatim>\<open>c.lower()\<close>: A to Z, and the Latin-1 capitals 192 to 222 (but 215), move up by 32.\<close>

definition lower_char :: "char \<Rightarrow> char" where
  "lower_char c =
     (let n = (of_char c :: nat)
      in if (65 \<le> n \<and> n \<le> 90) \<or> (192 \<le> n \<and> n \<le> 222 \<and> n \<noteq> 215)
         then char_of (n + 32) else c)"

definition lower :: "string \<Rightarrow> string" where
  "lower s = map lower_char s"

text \<open>\<^verbatim>\<open>s.startswith(p)\<close>.\<close>

fun startswith :: "string \<Rightarrow> string \<Rightarrow> bool" where
  "startswith s [] = True"
| "startswith [] (p # ps) = False"
| "startswith (c # s) (p # ps) = (c = p \<and> startswith s ps)"

text \<open>\<^verbatim>\<open>p in s\<close>: \<open>p\<close> occurs in \<open>s\<close> as a substring.\<close>

fun isin :: "string \<Rightarrow> string \<Rightarrow> bool" where
  "isin p [] = (p = [])"
| "isin p (c # s) = (startswith (c # s) p \<or> isin p s)"

text \<open>
  \<^verbatim>\<open>s.find(p, start)\<close>: the lowest index at or after \<open>start\<close> where \<open>p\<close> occurs, or
  \<open>-1\<close>. \<open>find_at p s i\<close> scans \<open>s\<close>, whose first character has index \<open>i\<close>.
\<close>

fun find_at :: "string \<Rightarrow> string \<Rightarrow> nat \<Rightarrow> int" where
  "find_at p [] i = (if p = [] then int i else - 1)"
| "find_at p (c # s) i = (if startswith (c # s) p then int i else find_at p s (Suc i))"

definition find :: "string \<Rightarrow> string \<Rightarrow> nat \<Rightarrow> int" where
  "find s p start = (if length s < start then - 1 else find_at p (drop start s) start)"

text \<open>\<^verbatim>\<open>s.strip()\<close>: white space removed at both ends.\<close>

definition strip :: "string \<Rightarrow> string" where
  "strip s = rev (dropWhile isspace (rev (dropWhile isspace s)))"

text \<open>
  \<^verbatim>\<open>s.replace(old, new)\<close>: every occurrence of \<open>old\<close>, found from left to right and not
  overlapping an earlier one, becomes \<open>new\<close>. \<open>replace_from k s\<close> is the scan with the
  next \<open>k\<close> characters still part of the occurrence just replaced. For an empty \<open>old\<close>
  Python puts \<open>new\<close> before every character and at the end.
\<close>

fun replace_from :: "nat \<Rightarrow> string \<Rightarrow> string \<Rightarrow> string \<Rightarrow> string" where
  "replace_from k [] old new = []"
| "replace_from (Suc k) (c # s) old new = replace_from k s old new"
| "replace_from 0 (c # s) old new =
     (if startswith (c # s) old then new @ replace_from (length old - 1) s old new
      else c # replace_from 0 s old new)"

definition replace :: "string \<Rightarrow> string \<Rightarrow> string \<Rightarrow> string" where
  "replace s old new =
     (if old = [] then new @ concat (map (\<lambda>c. c # new) s) else replace_from 0 s old new)"

text \<open>\<^verbatim>\<open>s.count(old)\<close> for a non-empty \<open>old\<close>: the occurrences \<^const>\<open>replace\<close> replaces.\<close>

fun count_from :: "nat \<Rightarrow> string \<Rightarrow> string \<Rightarrow> nat" where
  "count_from k [] old = 0"
| "count_from (Suc k) (c # s) old = count_from k s old"
| "count_from 0 (c # s) old =
     (if startswith (c # s) old then Suc (count_from (length old - 1) s old)
      else count_from 0 s old)"

definition count :: "string \<Rightarrow> string \<Rightarrow> nat" where
  "count s old = count_from 0 s old"

text \<open>\<^verbatim>\<open>str(n)\<close> for an integer: decimal digits, with a minus sign when negative.\<close>

definition digit :: "nat \<Rightarrow> char" where
  "digit d = char_of (48 + d)"

function str_nat :: "nat \<Rightarrow> string" where
  "str_nat n = (if n < 10 then [digit n] else str_nat (n div 10) @ [digit (n mod 10)])"
  by pat_completeness auto
termination
  by (relation "measure id") auto

declare str_nat.simps [simp del]

definition str_int :: "int \<Rightarrow> string" where
  "str_int i = (if i < 0 then CHR ''-'' # str_nat (nat (- i)) else str_nat (nat i))"

text \<open>\<^verbatim>\<open>os.path.basename(p)\<close>: what follows the last slash.\<close>

definition basename :: "string \<Rightarrow> string" where
  "basename p = rev (takeWhile (\<lambda>c. c \<noteq> CHR ''/'') (rev p))"

text \<open>A name between single quotes, as Python's error messages print it.\<close>

definition quoted :: "string \<Rightarrow> string" where
  "quoted s = [CHR 0x27] @ s @ [CHR 0x27]"

section \<open>Regular expressions\<close>

text \<open>
  The scripts call \<^verbatim>\<open>re.search\<close> with two patterns. Both are built from the items below;
  \<^verbatim>\<open>re\<close> matches by backtracking, a greedy item trying its longest match first and a
  lazy one its shortest. Each pattern has one group; the matcher returns its text and the
  input left after the match.
\<close>

datatype cls = Space | AnyChar | NotNewline

fun in_cls :: "cls \<Rightarrow> char \<Rightarrow> bool" where
  "in_cls Space c = isspace c"
| "in_cls AnyChar c = True"
| "in_cls NotNewline c = (c \<noteq> newline)"

datatype re =
    Bol_string          \<comment> \<open>\<^verbatim>\<open>^\<close> without \<^verbatim>\<open>re.MULTILINE\<close>: the start of the string\<close>
  | Bol_line            \<comment> \<open>\<^verbatim>\<open>^\<close> with \<^verbatim>\<open>re.MULTILINE\<close>: the start of a line\<close>
  | Eol_line            \<comment> \<open>\<^verbatim>\<open>$\<close> with \<^verbatim>\<open>re.MULTILINE\<close>: the end of a line\<close>
  | Lit string          \<comment> \<open>literal text\<close>
  | Star cls            \<comment> \<open>\<^verbatim>\<open>x*\<close>, greedy, outside the group\<close>
  | Cap1 cls            \<comment> \<open>one character, inside the group\<close>
  | CapLazy cls         \<comment> \<open>\<^verbatim>\<open>x*?\<close>, lazy, inside the group\<close>

text \<open>
  \<open>rmatch rs prev s g\<close> matches the items \<open>rs\<close> at the start of \<open>s\<close>; \<open>prev\<close> is the
  character before \<open>s\<close> in the whole input (\<open>None\<close> at its start) and \<open>g\<close> the text of the
  group so far.
\<close>

fun rmatch :: "re list \<Rightarrow> char option \<Rightarrow> string \<Rightarrow> string \<Rightarrow> (string \<times> string) option" where
  "rmatch [] prev s g = Some (g, s)"
| "rmatch (Bol_string # rs) prev s g = (if prev = None then rmatch rs prev s g else None)"
| "rmatch (Bol_line # rs) prev s g =
     (if prev = None \<or> prev = Some newline then rmatch rs prev s g else None)"
| "rmatch (Eol_line # rs) prev s g =
     (if s = [] \<or> startswith s [newline] then rmatch rs prev s g else None)"
| "rmatch (Lit l # rs) prev s g =
     (if startswith s l
      then rmatch rs (if l = [] then prev else Some (last l)) (drop (length l) s) g
      else None)"
| "rmatch (Star c # rs) prev [] g = rmatch rs prev [] g"
| "rmatch (Star c # rs) prev (x # s) g =
     (if in_cls c x
      then (case rmatch (Star c # rs) (Some x) s g of
              Some r \<Rightarrow> Some r
            | None \<Rightarrow> rmatch rs prev (x # s) g)
      else rmatch rs prev (x # s) g)"
| "rmatch (Cap1 c # rs) prev [] g = None"
| "rmatch (Cap1 c # rs) prev (x # s) g =
     (if in_cls c x then rmatch rs (Some x) s (g @ [x]) else None)"
| "rmatch (CapLazy c # rs) prev [] g = rmatch rs prev [] g"
| "rmatch (CapLazy c # rs) prev (x # s) g =
     (case rmatch rs prev (x # s) g of
        Some r \<Rightarrow> Some r
      | None \<Rightarrow> if in_cls c x then rmatch (CapLazy c # rs) (Some x) s (g @ [x]) else None)"

text \<open>
  \<^verbatim>\<open>re.search(pattern, s)\<close>: the match at the first position that has one. The result
  is \<^verbatim>\<open>group(1)\<close> and \<^verbatim>\<open>group(0)\<close>; \<open>None\<close> is Python's \<^verbatim>\<open>None\<close>.
\<close>

fun search_from :: "re list \<Rightarrow> char option \<Rightarrow> string \<Rightarrow> (string \<times> string) option" where
  "search_from rs prev [] =
     (case rmatch rs prev [] [] of None \<Rightarrow> None | Some (g, rest) \<Rightarrow> Some (g, []))"
| "search_from rs prev (x # s) =
     (case rmatch rs prev (x # s) [] of
        Some (g, rest) \<Rightarrow> Some (g, take (length (x # s) - length rest) (x # s))
      | None \<Rightarrow> search_from rs (Some x) s)"

definition search :: "re list \<Rightarrow> string \<Rightarrow> (string \<times> string) option" where
  "search rs s = search_from rs None s"

section \<open>Exceptions and the outside world\<close>

text \<open>
  A Python call either returns or raises. Every exception the scripts can meet but
  \<^verbatim>\<open>KeyboardInterrupt\<close> is an instance of \<^verbatim>\<open>Exception\<close>; only its message \<^verbatim>\<open>str(e)\<close> is
  ever looked at. \<^verbatim>\<open>except Exception\<close> catches \<open>PyException\<close> and lets
  \<open>KeyboardInterrupt\<close> through.
\<close>

datatype exn = PyException string | KeyboardInterrupt

text \<open>
  The test both scripts apply to \<^verbatim>\<open>str(e).lower()\<close>, in the outer handler of
  \<^verbatim>\<open>generate_and_upload_image\<close> and in the batch driver:
  \<^verbatim>\<open>"rate limit" in m or "quota" in m or "429" in m\<close>.
\<close>

definition rate_limit_signature :: "string \<Rightarrow> bool" where
  "rate_limit_signature msg =
     (let error_message = lower msg
      in isin ''rate limit'' error_message \<or> isin ''quota'' error_message
         \<or> isin ''429'' error_message)"

text \<open>What \<^verbatim>\<open>yaml.safe_load\<close> returns (floats and dates left out; keys are values).\<close>

datatype yaml =
    YNull | YBool bool | YInt int | YStr string | YList "yaml list" | YDict "(yaml \<times> yaml) list"

text \<open>Python's truth value of such a value.\<close>

fun truthy :: "yaml \<Rightarrow> bool" where
  "truthy YNull = False"
| "truthy (YBool b) = b"
| "truthy (YInt i) = (i \<noteq> 0)"
| "truthy (YStr s) = (s \<noteq> [])"
| "truthy (YList xs) = (xs \<noteq> [])"
| "truthy (YDict kvs) = (kvs \<noteq> [])"

fun is_dict :: "yaml \<Rightarrow> bool" where
  "is_dict (YDict kvs) = True"
| "is_dict v = False"

text \<open>\<^verbatim>\<open>'title' in v\<close> and \<^verbatim>\<open>v['title']\<close>; \<open>Inl\<close> carries the message of the error raised.\<close>

fun title_in :: "yaml \<Rightarrow> string + bool" where
  "title_in (YStr s) = Inr (isin ''title'' s)"
| "title_in (YList xs) = Inr (YStr ''title'' \<in> set xs)"
| "title_in (YDict kvs) = Inr (YStr ''title'' \<in> set (map fst kvs))"
| "title_in YNull = Inl (''argument of type '' @ quoted ''NoneType'' @ '' is not iterable'')"
| "title_in (YBool b) = Inl (''argument of type '' @ quoted ''bool'' @ '' is not iterable'')"
| "title_in (YInt i) = Inl (''argument of type '' @ quoted ''int'' @ '' is not iterable'')"

fun title_item :: "yaml \<Rightarrow> string + yaml" where
  "title_item (YDict kvs) =
     (case map_of kvs (YStr ''title'') of
        Some v \<Rightarrow> Inr v
      | None \<Rightarrow> Inl (quoted ''title''))"
| "title_item (YStr s) = Inl (''string indices must be integers, not '' @ quoted ''str'')"
| "title_item (YList xs) = Inl ''list indices must be integers or slices, not str''"
| "title_item YNull = Inl (quoted ''NoneType'' @ '' object is not subscriptable'')"
| "title_item (YBool b) = Inl (quoted ''bool'' @ '' object is not subscriptable'')"
| "title_item (YInt i) = Inl (quoted ''int'' @ '' object is not subscriptable'')"

text \<open>
  The first part of the first candidate of a Gemini response: \<^verbatim>\<open>inline_data\<close> may be
  \<^verbatim>\<open>None\<close>, and so may its \<^verbatim>\<open>mime_type\<close> and \<^verbatim>\<open>data\<close>.
\<close>

datatype inline_data = Inline_data (mime_type: "string option") (data: "string option")

datatype part = Part (inline_data: "inline_data option")

text \<open>The answer of Cloudinary: \<open>secure_url\<close> is that entry of the JSON body, if any.\<close>

record http_response =
  status_code :: int
  response_text :: string
  secure_url :: "string option"

text \<open>
  Everything the scripts get from outside. The \<open>n\<close>-th call of the Gemini API raises or
  returns the parts of its first candidate (none when the response has no candidate);
  the \<open>n\<close>-th upload request raises or returns a response; the \<open>n\<close>-th \<^verbatim>\<open>time.sleep\<close> may
  be cut by the user's interrupt, and so may a request; opening a file for writing fails
  where \<open>writable\<close> is false. \<open>yaml_safe_load\<close> is the YAML parser (\<open>Inl\<close> is a
  \<^verbatim>\<open>yaml.YAMLError\<close>), \<open>glob_md\<close> the result of the script's \<^verbatim>\<open>glob.glob\<close>, \<open>now\<close> the
  formatted \<^verbatim>\<open>datetime.now()\<close> and \<open>str_yaml\<close> Python's \<^verbatim>\<open>str\<close> of a parsed value.
\<close>

record env =
  CLOUDINARY_CLOUD_NAME :: "string option"
  CLOUDINARY_API_KEY :: "string option"
  GEMINI_API_KEY :: "string option"
  glob_md :: "string list"
  yaml_safe_load :: "string \<Rightarrow> string + yaml"
  generate_content :: "nat \<Rightarrow> exn + part list"
  requests_post :: "nat \<Rightarrow> exn + http_response"
  sleep_interrupted :: "nat \<Rightarrow> bool"
  writable :: "string \<Rightarrow> bool"
  now :: string
  str_yaml :: "yaml \<Rightarrow> string"

text \<open>The \<^verbatim>\<open>stats\<close> dictionary of \<^verbatim>\<open>generate_articles.py\<close>.\<close>

record replaced_image =
  item_file :: string
  item_title :: yaml
  item_image_url :: string

record stats =
  total_files :: int
  files_with_placeholders :: int
  successful_replacements :: int
  failed_replacements :: int
  skipped_files :: int
  replaced_images :: "replaced_image list"

text \<open>
  What a run changes: the text files (path to content), the number of API calls and
  uploads made, the delays slept so far, and the statistics.
\<close>

record state =
  files :: "string \<rightharpoonup> string"
  gemini_calls :: nat
  upload_calls :: nat
  slept :: "int list"
  stats :: stats

text \<open>\<^verbatim>\<open>time.sleep(d)\<close>: a negative \<open>d\<close> raises \<^verbatim>\<open>ValueError\<close>.\<close>

definition sleep :: "env \<Rightarrow> int \<Rightarrow> state \<Rightarrow> (exn + unit) \<times> state" where
  "sleep e d st =
     (if d < 0 then (Inl (PyException ''sleep length must be non-negative''), st)
      else if sleep_interrupted e (length (slept st)) then (Inl KeyboardInterrupt, st)
      else (Inr (), st\<lparr>slept := slept st @ [d]\<rparr>))"

text \<open>\<^verbatim>\<open>open(path, 'w').write(content)\<close>.\<close>

definition write_file :: "env \<Rightarrow> string \<Rightarrow> string \<Rightarrow> state \<Rightarrow> (exn + unit) \<times> state" where
  "write_file e path content st =
     (if writable e path then (Inr (), st\<lparr>files := (files st)(path \<mapsto> content)\<rparr>)
      else (Inl (PyException (''[Errno 13] Permission denied: '' @ quoted path)), st))"

section \<open>Constants\<close>

definition PLACEHOLDER_IMAGE_URL :: string where
  "PLACEHOLDER_IMAGE_URL =
     ''https://res.cloudinary.com/dbcpfy04c/image/upload/v1743184673/images_k6zam3.png''"

definition SUMMARY_FILE :: string where
  "SUMMARY_FILE = ''image_replacement_summary.txt''"

definition MAX_RETRIES :: int where "MAX_RETRIES = 5"
definition BASE_RETRY_DELAY :: int where "BASE_RETRY_DELAY = 5"
definition SUCCESS_DELAY :: int where "SUCCESS_DELAY = 60"

section \<open>Upload\<close>

text \<open>
  \<^verbatim>\<open>upload_to_cloudinary\<close>, the same in both scripts but for logging: one POST request;
  status 200 returns the \<^verbatim>\<open>secure_url\<close> of the body (a \<^verbatim>\<open>KeyError\<close> when it has none),
  429, 500 and above, and any other status raise an exception each.
\<close>

definition upload_to_cloudinary :: "env \<Rightarrow> state \<Rightarrow> (exn + string) \<times> state" where
  "upload_to_cloudinary e st =
     (let st' = st\<lparr>upload_calls := Suc (upload_calls st)\<rparr>
      in case requests_post e (upload_calls st) of
           Inl x \<Rightarrow> (Inl x, st')
         | Inr response \<Rightarrow>
             if status_code response = 200 then
               (case secure_url response of
                  Some u \<Rightarrow> (Inr u, st')
                | None \<Rightarrow> (Inl (PyException (quoted ''secure_url'')), st'))
             else if status_code response = 429 then
               (Inl (PyException (''Cloudinary rate limit exceeded: '' @ response_text response)), st')
             else if status_code response \<ge> 500 then
               (Inl (PyException (''Cloudinary server error: '' @ response_text response)), st')
             else
               (Inl (PyException (''Cloudinary upload failed with status ''
                      @ str_int (status_code response) @ '': '' @ response_text response)), st'))"

section \<open>Image generation and its retries\<close>

text \<open>
  The inner loop of \<^verbatim>\<open>generate_and_upload_image\<close>,
  \<^verbatim>\<open>for upload_attempt in range(1, max_retries + 1)\<close>. \<open>upload_try\<close> is its \<^verbatim>\<open>try\<close>
  block and \<open>upload_step\<close> adds the \<^verbatim>\<open>except Exception\<close> handler. Both return the
  local variable \<^verbatim>\<open>image_url\<close> (\<open>None\<close> until an upload returns) next to the state; the
  result \<open>Inr True\<close> is the \<^verbatim>\<open>break\<close>.
\<close>

definition upload_try ::
  "env \<Rightarrow> int \<Rightarrow> int \<Rightarrow> string option \<Rightarrow> state \<Rightarrow> (exn + bool) \<times> string option \<times> state" where
  "upload_try e retry_delay upload_attempt image_url st =
     (case upload_to_cloudinary e st of
        (Inl x, st1) \<Rightarrow> (Inl x, image_url, st1)
      | (Inr u, st1) \<Rightarrow>
          if u \<noteq> [] then (Inr True, Some u, st1)
          else (case sleep e (retry_delay * 2 ^ nat (upload_attempt - 1)) st1 of
                  (Inl x, st2) \<Rightarrow> (Inl x, Some u, st2)
                | (Inr _, st2) \<Rightarrow> (Inr False, Some u, st2)))"

definition upload_step ::
  "env \<Rightarrow> int \<Rightarrow> int \<Rightarrow> string option \<Rightarrow> state \<Rightarrow> (exn + bool) \<times> string option \<times> state" where
  "upload_step e retry_delay upload_attempt image_url st =
     (case upload_try e retry_delay upload_attempt image_url st of
        (Inl (PyException m), image_url', st1) \<Rightarrow>
          if isin ''rate limit'' (lower m)
          then (case sleep e (retry_delay * 2 ^ nat (upload_attempt - 1)) st1 of
                  (Inl x, st2) \<Rightarrow> (Inl x, image_url', st2)
                | (Inr _, st2) \<Rightarrow> (Inr False, image_url', st2))
          else (Inr False, image_url', st1)
      | r \<Rightarrow> r)"

fun upload_loop ::
  "env \<Rightarrow> int \<Rightarrow> int list \<Rightarrow> string option \<Rightarrow> state \<Rightarrow> (exn + string option) \<times> state" where
  "upload_loop e retry_delay [] image_url st = (Inr image_url, st)"
| "upload_loop e retry_delay (upload_attempt # rest) image_url st =
     (case upload_step e retry_delay upload_attempt image_url st of
        (Inl x, image_url', st') \<Rightarrow> (Inl x, st')
      | (Inr True, image_url', st') \<Rightarrow> (Inr image_url', st')
      | (Inr False, image_url', st') \<Rightarrow> upload_loop e retry_delay rest image_url' st')"

text \<open>
  Reading the image out of the first part. \<^verbatim>\<open>generate_articles.py\<close> checks
  \<^verbatim>\<open>inline_data\<close>, its \<^verbatim>\<open>mime_type\<close> and its \<^verbatim>\<open>data\<close> and raises with a message of its own;
  \<^verbatim>\<open>placeholder_image_replacer.py\<close> checks nothing, and the same three defects raise in
  \<^verbatim>\<open>inline_data.mime_type\<close>, \<^verbatim>\<open>mimetypes.guess_extension\<close> and \<^verbatim>\<open>f.write\<close>. The result is
  the message of the exception, if any.
\<close>

datatype script = Replacer | Articles

fun check_part :: "script \<Rightarrow> part \<Rightarrow> string option" where
  "check_part Articles (Part None) = Some ''Response does not contain valid image data''"
| "check_part Articles (Part (Some (Inline_data None d))) =
     Some ''Response inline_data missing mime_type''"
| "check_part Articles (Part (Some (Inline_data (Some m) None))) =
     Some ''Response inline_data missing data''"
| "check_part Replacer (Part None) =
     Some (quoted ''NoneType'' @ '' object has no attribute '' @ quoted ''mime_type'')"
| "check_part Replacer (Part (Some (Inline_data None d))) =
     Some (quoted ''NoneType'' @ '' object has no attribute '' @ quoted ''lower'')"
| "check_part Replacer (Part (Some (Inline_data (Some m) None))) =
     Some (''a bytes-like object is required, not '' @ quoted ''NoneType'')"
| "check_part sc (Part (Some (Inline_data (Some m) (Some d)))) = None"

text \<open>
  The wait at the end of the \<^verbatim>\<open>try\<close> block, reached when no exception was raised and no
  URL returned: \<^verbatim>\<open>if attempt < max_retries: time.sleep(retry_delay * (2 ** (attempt - 1)))\<close>.
\<close>

definition wait_after_failure ::
  "env \<Rightarrow> int \<Rightarrow> int \<Rightarrow> int \<Rightarrow> state \<Rightarrow> (exn + string option) \<times> state" where
  "wait_after_failure e max_retries retry_delay attempt st =
     (if attempt < max_retries
      then (case sleep e (retry_delay * 2 ^ nat (attempt - 1)) st of
              (Inl x, st') \<Rightarrow> (Inl x, st')
            | (Inr _, st') \<Rightarrow> (Inr None, st'))
      else (Inr None, st))"

text \<open>
  The \<^verbatim>\<open>try\<close> block of one attempt of the outer loop: the API call, the upload loop when
  the response has a part, then either \<^verbatim>\<open>return image_url\<close> (\<open>Inr (Some u)\<close>) or the wait.
  The temporary image files (saved, compressed, removed) are left out.
\<close>

definition generation_try ::
  "script \<Rightarrow> env \<Rightarrow> int \<Rightarrow> int \<Rightarrow> int \<Rightarrow> state \<Rightarrow> (exn + string option) \<times> state" where
  "generation_try sc e max_retries retry_delay attempt st =
     (let st0 = st\<lparr>gemini_calls := Suc (gemini_calls st)\<rparr>
      in case generate_content e (gemini_calls st) of
           Inl x \<Rightarrow> (Inl x, st0)
         | Inr [] \<Rightarrow> wait_after_failure e max_retries retry_delay attempt st0
         | Inr (first_part # parts) \<Rightarrow>
             (case check_part sc first_part of
                Some m \<Rightarrow> (Inl (PyException m), st0)
              | None \<Rightarrow>
                  (case upload_loop e retry_delay [1..max_retries] None st0 of
                     (Inl x, st1) \<Rightarrow> (Inl x, st1)
                   | (Inr None, st1) \<Rightarrow> wait_after_failure e max_retries retry_delay attempt st1
                   | (Inr (Some u), st1) \<Rightarrow>
                       if u \<noteq> [] then (Inr (Some u), st1)
                       else wait_after_failure e max_retries retry_delay attempt st1)))"

text \<open>
  One attempt with its \<^verbatim>\<open>except Exception\<close> handler: a message with the rate-limit
  signature waits \<^verbatim>\<open>retry_delay * (2 ** attempt)\<close>, any other
  \<^verbatim>\<open>retry_delay * (2 ** (attempt - 1))\<close>, both only when \<^verbatim>\<open>attempt < max_retries\<close>.
\<close>

definition generation_step ::
  "script \<Rightarrow> env \<Rightarrow> int \<Rightarrow> int \<Rightarrow> int \<Rightarrow> state \<Rightarrow> (exn + string option) \<times> state" where
  "generation_step sc e max_retries retry_delay attempt st =
     (case generation_try sc e max_retries retry_delay attempt st of
        (Inl (PyException m), st1) \<Rightarrow>
          if rate_limit_signature m then
            (if attempt < max_retries
             then (case sleep e (retry_delay * 2 ^ nat attempt) st1 of
                     (Inl x, st2) \<Rightarrow> (Inl x, st2)
                   | (Inr _, st2) \<Rightarrow> (Inr None, st2))
             else (Inr None, st1))
          else if attempt < max_retries
          then (case sleep e (retry_delay * 2 ^ nat (attempt - 1)) st1 of
                  (Inl x, st2) \<Rightarrow> (Inl x, st2)
                | (Inr _, st2) \<Rightarrow> (Inr None, st2))
          else (Inr None, st1)
      | r \<Rightarrow> r)"

fun generation_loop ::
  "script \<Rightarrow> env \<Rightarrow> int \<Rightarrow> int \<Rightarrow> int list \<Rightarrow> state \<Rightarrow> (exn + string option) \<times> state" where
  "generation_loop sc e max_retries retry_delay [] st = (Inr None, st)"
| "generation_loop sc e max_retries retry_delay (attempt # rest) st =
     (case generation_step sc e max_retries retry_delay attempt st of
        (Inr None, st') \<Rightarrow> generation_loop sc e max_retries retry_delay rest st'
      | r \<Rightarrow> r)"

text \<open>
  \<^verbatim>\<open>generate_and_upload_image(title, max_retries, retry_delay)\<close>: \<open>Inr (Some url)\<close> is the
  URL returned, \<open>Inr None\<close> the \<^verbatim>\<open>return None\<close> after the last attempt. The title only
  goes into the prompt.
\<close>

definition generate_and_upload_image ::
  "script \<Rightarrow> env \<Rightarrow> yaml \<Rightarrow> int \<Rightarrow> int \<Rightarrow> state \<Rightarrow> (exn + string option) \<times> state" where
  "generate_and_upload_image sc e title max_retries retry_delay st =
     generation_loop sc e max_retries retry_delay [1..max_retries] st"

section \<open>Front matter\<close>

text \<open>
  \<^verbatim>\<open>extract_front_matter\<close> returns a pair: \<open>None\<close> here is \<^verbatim>\<open>(None, None)\<close>, and
  \<open>Some (front_matter, block)\<close> any other pair (\<open>front_matter\<close> is \<open>YNull\<close> when the parser
  returned \<^verbatim>\<open>None\<close>).

  In \<^verbatim>\<open>placeholder_image_replacer.py\<close> it is
  \<^verbatim>\<open>re.search(r'^---\s*(.*?)\s*---\s*', content, re.DOTALL)\<close>, then \<^verbatim>\<open>yaml.safe_load\<close> of
  group 1, and \<^verbatim>\<open>return front_matter, match.group(0)\<close> whatever was parsed.
\<close>

definition front_matter_pattern :: "re list" where
  "front_matter_pattern =
     [Bol_string, Lit ''---'', Star Space, CapLazy AnyChar, Star Space, Lit ''---'', Star Space]"

definition extract_front_matter_pir :: "env \<Rightarrow> string \<Rightarrow> (yaml \<times> string) option" where
  "extract_front_matter_pir e content =
     (case search front_matter_pattern content of
        None \<Rightarrow> None
      | Some (front_matter_text, block) \<Rightarrow>
          (case yaml_safe_load e front_matter_text of
             Inl err \<Rightarrow> None
           | Inr front_matter \<Rightarrow> Some (front_matter, block)))"

text \<open>\<^verbatim>\<open>content[a:b]\<close> for indices that are not negative.\<close>

definition slice :: "string \<Rightarrow> int \<Rightarrow> int \<Rightarrow> string" where
  "slice s a b = drop (nat a) (take (nat b) s)"

text \<open>
  In \<^verbatim>\<open>generate_articles.py\<close> it looks for the two markers with \<^verbatim>\<open>startswith\<close> and
  \<^verbatim>\<open>find\<close>, and returns the parsed value only when it is a non-empty dictionary; a
  dictionary without a title is returned all the same (the script only logs a warning).
\<close>

definition extract_front_matter_ga :: "env \<Rightarrow> string \<Rightarrow> (yaml \<times> string) option" where
  "extract_front_matter_ga e content =
     (if \<not> startswith content ''---'' then None
      else
        let first_marker_end = find content ''---'' 0 + 3;
            second_marker_start = find content ''---'' (nat first_marker_end)
        in if second_marker_start = - 1 then None
           else
             let front_matter_text = strip (slice content first_marker_end second_marker_start);
                 full_front_matter = slice content 0 (second_marker_start + 3)
             in case yaml_safe_load e front_matter_text of
                  Inl err \<Rightarrow> None
                | Inr front_matter \<Rightarrow>
                    if truthy front_matter \<and> is_dict front_matter
                    then Some (front_matter, full_front_matter)
                    else None)"

text \<open>
  What both scripts do with the first component:
  \<^verbatim>\<open>if not front_matter or 'title' not in front_matter\<close> (\<open>Inr None\<close> when that holds), else
  \<^verbatim>\<open>title = front_matter['title']\<close>. \<open>Inl\<close> is the message of a \<^verbatim>\<open>TypeError\<close>, raised when
  the parsed value is a number or a string that holds the word.
\<close>

definition lookup_title :: "(yaml \<times> string) option \<Rightarrow> string + yaml option" where
  "lookup_title r =
     (let front_matter = (case r of None \<Rightarrow> YNull | Some (v, block) \<Rightarrow> v)
      in if \<not> truthy front_matter then Inr None
         else case title_in front_matter of
                Inl m \<Rightarrow> Inl m
              | Inr False \<Rightarrow> Inr None
              | Inr True \<Rightarrow>
                  (case title_item front_matter of
                     Inl m \<Rightarrow> Inl m
                   | Inr title \<Rightarrow> Inr (Some title)))"

text \<open>
  The second search of \<^verbatim>\<open>generate_articles.py\<close>, made when the front matter gave no title:
  \<^verbatim>\<open>re.search(r'^title:\s*(.+?)$', content, re.MULTILINE)\<close>, group 1 stripped.
\<close>

definition title_pattern :: "re list" where
  "title_pattern =
     [Bol_line, Lit ''title:'', Star Space, Cap1 NotNewline, CapLazy NotNewline, Eol_line]"

definition alternative_title :: "string \<Rightarrow> string option" where
  "alternative_title content =
     (case search title_pattern content of
        None \<Rightarrow> None
      | Some (g, whole) \<Rightarrow> Some (strip g))"

section \<open>Rewriting one file\<close>

text \<open>
  \<^verbatim>\<open>replace_image_in_markdown\<close> of \<^verbatim>\<open>placeholder_image_replacer.py\<close>. \<open>Inr b\<close> is
  \<^verbatim>\<open>return b\<close>. Its handler prints and raises again, so an exception of the body is the
  exception of the call. Opening a file that does not exist raises.
\<close>

definition replace_image_in_markdown_pir :: "env \<Rightarrow> string \<Rightarrow> state \<Rightarrow> (exn + bool) \<times> state" where
  "replace_image_in_markdown_pir e md_file_path st =
     (case files st md_file_path of
        None \<Rightarrow>
          (Inl (PyException (''[Errno 2] No such file or directory: '' @ quoted md_file_path)), st)
      | Some content \<Rightarrow>
          if \<not> isin PLACEHOLDER_IMAGE_URL content then (Inr False, st)
          else
            (case lookup_title (extract_front_matter_pir e content) of
               Inl m \<Rightarrow> (Inl (PyException m), st)
             | Inr None \<Rightarrow> (Inr False, st)
             | Inr (Some title) \<Rightarrow>
                 (case generate_and_upload_image Replacer e title MAX_RETRIES BASE_RETRY_DELAY st of
                    (Inl x, st1) \<Rightarrow> (Inl x, st1)
                  | (Inr None, st1) \<Rightarrow> (Inr False, st1)
                  | (Inr (Some new_image_url), st1) \<Rightarrow>
                      if new_image_url = [] then (Inr False, st1)
                      else
                        (case write_file e md_file_path
                                (replace content PLACEHOLDER_IMAGE_URL new_image_url) st1 of
                           (Inl x, st2) \<Rightarrow> (Inl x, st2)
                         | (Inr _, st2) \<Rightarrow>
                             (case write_file e (md_file_path @ ''.bak'') content st2 of
                                (Inl x, st3) \<Rightarrow> (Inl x, st3)
                              | (Inr _, st3) \<Rightarrow> (Inr True, st3))))))"

text \<open>The counters of \<^verbatim>\<open>stats\<close> that \<^verbatim>\<open>generate_articles.py\<close> increments.\<close>

definition count_failed :: "state \<Rightarrow> state" where
  "count_failed st =
     st\<lparr>stats := (stats st)\<lparr>failed_replacements := failed_replacements (stats st) + 1\<rparr>\<rparr>"

definition count_skipped :: "state \<Rightarrow> state" where
  "count_skipped st = st\<lparr>stats := (stats st)\<lparr>skipped_files := skipped_files (stats st) + 1\<rparr>\<rparr>"

definition count_placeholder :: "state \<Rightarrow> state" where
  "count_placeholder st =
     st\<lparr>stats := (stats st)\<lparr>files_with_placeholders := files_with_placeholders (stats st) + 1\<rparr>\<rparr>"

definition count_success :: "string \<Rightarrow> yaml \<Rightarrow> string \<Rightarrow> state \<Rightarrow> state" where
  "count_success file_basename title new_image_url st =
     st\<lparr>stats := (stats st)
          \<lparr>successful_replacements := successful_replacements (stats st) + 1,
           replaced_images := replaced_images (stats st)
             @ [\<lparr>item_file = file_basename, item_title = title, item_image_url = new_image_url\<rparr>]\<rparr>\<rparr>"

text \<open>
  The \<^verbatim>\<open>try\<close> block of \<^verbatim>\<open>replace_image_in_markdown\<close> in \<^verbatim>\<open>generate_articles.py\<close>: a
  missing file and a missing title count as failed, a file without the placeholder as
  skipped. \<open>title_or_alternative\<close> is the title of the front matter or, without one, of
  the second search. (The second reading as Latin-1 after a \<^verbatim>\<open>UnicodeDecodeError\<close> is
  left out: \<open>files\<close> holds decoded text.)
\<close>

definition title_or_alternative :: "env \<Rightarrow> string \<Rightarrow> string + yaml option" where
  "title_or_alternative e content =
     (case lookup_title (extract_front_matter_ga e content) of
        Inl m \<Rightarrow> Inl m
      | Inr (Some title) \<Rightarrow> Inr (Some title)
      | Inr None \<Rightarrow>
          (case alternative_title content of
             Some extracted_title \<Rightarrow> Inr (Some (YStr extracted_title))
           | None \<Rightarrow> Inr None))"

definition replace_image_in_markdown_try_ga :: "env \<Rightarrow> string \<Rightarrow> state \<Rightarrow> (exn + bool) \<times> state" where
  "replace_image_in_markdown_try_ga e md_file_path st =
     (case files st md_file_path of
        None \<Rightarrow> (Inr False, count_failed st)
      | Some content \<Rightarrow>
          if \<not> isin PLACEHOLDER_IMAGE_URL content then (Inr False, count_skipped st)
          else
            (case title_or_alternative e content of
               Inl m \<Rightarrow> (Inl (PyException m), count_placeholder st)
             | Inr None \<Rightarrow> (Inr False, count_failed (count_placeholder st))
             | Inr (Some title) \<Rightarrow>
                 (case generate_and_upload_image Articles e title MAX_RETRIES BASE_RETRY_DELAY
                         (count_placeholder st) of
                    (Inl x, st1) \<Rightarrow> (Inl x, st1)
                  | (Inr None, st1) \<Rightarrow> (Inr False, count_failed st1)
                  | (Inr (Some new_image_url), st1) \<Rightarrow>
                      if new_image_url = [] then (Inr False, count_failed st1)
                      else
                        (case write_file e md_file_path
                                (replace content PLACEHOLDER_IMAGE_URL new_image_url) st1 of
                           (Inl x, st2) \<Rightarrow> (Inl x, st2)
                         | (Inr _, st2) \<Rightarrow>
                             (case write_file e (md_file_path @ ''.bak'') content st2 of
                                (Inl x, st3) \<Rightarrow> (Inl x, st3)
                              | (Inr _, st3) \<Rightarrow>
                                  (Inr True,
                                   count_success (basename md_file_path) title new_image_url st3))))))"

text \<open>Its \<^verbatim>\<open>except Exception\<close> handler counts a failure and raises again.\<close>

definition replace_image_in_markdown_ga :: "env \<Rightarrow> string \<Rightarrow> state \<Rightarrow> (exn + bool) \<times> state" where
  "replace_image_in_markdown_ga e md_file_path st =
     (case replace_image_in_markdown_try_ga e md_file_path st of
        (Inl (PyException m), st') \<Rightarrow> (Inl (PyException m), count_failed st')
      | r \<Rightarrow> r)"

fun replace_image_in_markdown :: "script \<Rightarrow> env \<Rightarrow> string \<Rightarrow> state \<Rightarrow> (exn + bool) \<times> state" where
  "replace_image_in_markdown Replacer = replace_image_in_markdown_pir"
| "replace_image_in_markdown Articles = replace_image_in_markdown_ga"

section \<open>The batch driver\<close>

text \<open>
  The local variables of \<^verbatim>\<open>process_all_markdown_files\<close>. \<^verbatim>\<open>success_count\<close> and
  \<^verbatim>\<open>failed_files\<close> exist in \<^verbatim>\<open>placeholder_image_replacer.py\<close> only;
  \<^verbatim>\<open>generate_articles.py\<close> has the same loop without them, and leaves the two fields as
  they are.
\<close>

record locals =
  success_count :: int
  failed_files :: "string list"
  current_delay :: int
  consecutive_failures :: int

definition base_delay :: int where "base_delay = 3"
definition max_delay :: int where "max_delay = 60"
definition max_consecutive_failures :: int where "max_consecutive_failures = 3"

definition initial_locals :: locals where
  "initial_locals =
     \<lparr>success_count = 0, failed_files = [], current_delay = base_delay, consecutive_failures = 0\<rparr>"

definition note_success :: "script \<Rightarrow> locals \<Rightarrow> locals" where
  "note_success sc l = (if sc = Replacer then l\<lparr>success_count := success_count l + 1\<rparr> else l)"

definition note_failed :: "script \<Rightarrow> string \<Rightarrow> locals \<Rightarrow> locals" where
  "note_failed sc md_file l =
     (if sc = Replacer then l\<lparr>failed_files := failed_files l @ [basename md_file]\<rparr> else l)"

text \<open>
  The \<^verbatim>\<open>try\<close> block of the loop body: after \<^verbatim>\<open>True\<close> the counter is reset, the driver
  sleeps \<^verbatim>\<open>SUCCESS_DELAY\<close> and sets \<^verbatim>\<open>current_delay = base_delay\<close>; after \<^verbatim>\<open>False\<close> the
  failure is counted and the driver sleeps \<^verbatim>\<open>current_delay\<close>.
\<close>

definition process_file_try ::
  "script \<Rightarrow> env \<Rightarrow> string \<Rightarrow> locals \<Rightarrow> state \<Rightarrow> (exn + unit) \<times> locals \<times> state" where
  "process_file_try sc e md_file l st =
     (case replace_image_in_markdown sc e md_file st of
        (Inl x, st1) \<Rightarrow> (Inl x, l, st1)
      | (Inr True, st1) \<Rightarrow>
          (case sleep e SUCCESS_DELAY st1 of
             (Inl x, st2) \<Rightarrow> (Inl x, (note_success sc l)\<lparr>consecutive_failures := 0\<rparr>, st2)
           | (Inr _, st2) \<Rightarrow>
               (Inr (),
                (note_success sc l)\<lparr>consecutive_failures := 0, current_delay := base_delay\<rparr>, st2))
      | (Inr False, st1) \<Rightarrow>
          (case sleep e (current_delay l) st1 of
             (Inl x, st2) \<Rightarrow>
               (Inl x,
                (note_failed sc md_file l)\<lparr>consecutive_failures := consecutive_failures l + 1\<rparr>,
                st2)
           | (Inr _, st2) \<Rightarrow>
               (Inr (),
                (note_failed sc md_file l)\<lparr>consecutive_failures := consecutive_failures l + 1\<rparr>,
                st2)))"

text \<open>
  The \<^verbatim>\<open>except Exception as e\<close> handler of the loop body: the failure is counted, a
  message with the rate-limit signature sets
  \<^verbatim>\<open>current_delay = min(current_delay * 2, max_delay)\<close>, and the driver sleeps
  \<^verbatim>\<open>current_delay\<close>.
\<close>

definition process_file_except ::
  "script \<Rightarrow> env \<Rightarrow> string \<Rightarrow> string \<Rightarrow> locals \<Rightarrow> state \<Rightarrow> (exn + unit) \<times> locals \<times> state" where
  "process_file_except sc e md_file m l st =
     (let l1 = (note_failed sc md_file l)\<lparr>consecutive_failures := consecutive_failures l + 1\<rparr>;
          l2 = (if rate_limit_signature m
                then l1\<lparr>current_delay := min (current_delay l1 * 2) max_delay\<rparr> else l1)
      in case sleep e (current_delay l2) st of
           (Inl x, st') \<Rightarrow> (Inl x, l2, st')
         | (Inr _, st') \<Rightarrow> (Inr (), l2, st'))"

text \<open>
  The end of the loop body: \<^verbatim>\<open>if consecutive_failures >= max_consecutive_failures\<close>, sleep
  \<^verbatim>\<open>min(current_delay * 3, 120)\<close> and reset the counter.
\<close>

definition long_break :: "env \<Rightarrow> locals \<Rightarrow> state \<Rightarrow> (exn + unit) \<times> locals \<times> state" where
  "long_break e l st =
     (if consecutive_failures l \<ge> max_consecutive_failures
      then (case sleep e (min (current_delay l * 3) 120) st of
              (Inl x, st') \<Rightarrow> (Inl x, l, st')
            | (Inr _, st') \<Rightarrow> (Inr (), l\<lparr>consecutive_failures := 0\<rparr>, st'))
      else (Inr (), l, st))"

text \<open>The whole loop body for one file, and the loop.\<close>

definition process_file ::
  "script \<Rightarrow> env \<Rightarrow> string \<Rightarrow> locals \<Rightarrow> state \<Rightarrow> (exn + unit) \<times> locals \<times> state" where
  "process_file sc e md_file l st =
     (case process_file_try sc e md_file l st of
        (Inl KeyboardInterrupt, l1, st1) \<Rightarrow> (Inl KeyboardInterrupt, l1, st1)
      | (Inl (PyException m), l1, st1) \<Rightarrow>
          (case process_file_except sc e md_file m l1 st1 of
             (Inl x, l2, st2) \<Rightarrow> (Inl x, l2, st2)
           | (Inr _, l2, st2) \<Rightarrow> long_break e l2 st2)
      | (Inr _, l1, st1) \<Rightarrow> long_break e l1 st1)"

fun process_files ::
  "script \<Rightarrow> env \<Rightarrow> string list \<Rightarrow> locals \<Rightarrow> state \<Rightarrow> (exn + unit) \<times> locals \<times> state" where
  "process_files sc e [] l st = (Inr (), l, st)"
| "process_files sc e (md_file # rest) l st =
     (case process_file sc e md_file l st of
        (Inl x, l', st') \<Rightarrow> (Inl x, l', st')
      | (Inr _, l', st') \<Rightarrow> process_files sc e rest l' st')"

section \<open>The summary and the two main functions\<close>

text \<open>\<^verbatim>\<open>create_summary_file\<close> of \<^verbatim>\<open>generate_articles.py\<close>: the text it writes.\<close>

fun summary_items :: "env \<Rightarrow> int \<Rightarrow> replaced_image list \<Rightarrow> string" where
  "summary_items e i [] = []"
| "summary_items e i (item # items) =
     ''### '' @ str_int i @ ''. '' @ item_file item @ [newline]
     @ ''- Title: '' @ str_yaml e (item_title item) @ [newline]
     @ ''- Image URL: '' @ item_image_url item @ [newline]
     @ ''- Preview: !['' @ str_yaml e (item_title item) @ '']('' @ item_image_url item @ '')''
     @ [newline, newline]
     @ summary_items e (i + 1) items"

definition summary_text :: "env \<Rightarrow> stats \<Rightarrow> string" where
  "summary_text e s =
     ''# Image Replacement Summary'' @ [newline, newline]
     @ ''Process completed at: '' @ now e @ [newline, newline]
     @ ''## Statistics'' @ [newline]
     @ ''- Total files scanned: '' @ str_int (total_files s) @ [newline]
     @ ''- Files with placeholder images: '' @ str_int (files_with_placeholders s) @ [newline]
     @ ''- Successful replacements: '' @ str_int (successful_replacements s) @ [newline]
     @ ''- Failed replacements: '' @ str_int (failed_replacements s) @ [newline]
     @ ''- Skipped files (no placeholders): '' @ str_int (skipped_files s) @ [newline, newline]
     @ ''## Replaced Images'' @ [newline]
     @ (if replaced_images s \<noteq> [] then summary_items e 1 (replaced_images s)
        else ''No images were replaced in this run.'' @ [newline])"

definition create_summary_file :: "env \<Rightarrow> state \<Rightarrow> (exn + unit) \<times> state" where
  "create_summary_file e st = write_file e SUMMARY_FILE (summary_text e (stats st)) st"

text \<open>
  \<^verbatim>\<open>process_all_markdown_files\<close>: both return at once when \<^verbatim>\<open>glob\<close> finds no file;
  \<^verbatim>\<open>generate_articles.py\<close> records the number of files first and writes the summary after
  the loop.
\<close>

definition process_all_markdown_files_pir :: "env \<Rightarrow> state \<Rightarrow> (exn + unit) \<times> state" where
  "process_all_markdown_files_pir e st =
     (if glob_md e = [] then (Inr (), st)
      else (case process_files Replacer e (glob_md e) initial_locals st of
              (r, l, st') \<Rightarrow> (r, st')))"

definition process_all_markdown_files_ga :: "env \<Rightarrow> state \<Rightarrow> (exn + unit) \<times> state" where
  "process_all_markdown_files_ga e st =
     (if glob_md e = [] then (Inr (), st)
      else (case process_files Articles e (glob_md e) initial_locals
                   (st\<lparr>stats := (stats st)\<lparr>total_files := int (length (glob_md e))\<rparr>\<rparr>) of
              (Inl x, l, st') \<Rightarrow> (Inl x, st')
            | (Inr _, l, st') \<Rightarrow> create_summary_file e st'))"

text \<open>\<^verbatim>\<open>all([CLOUDINARY_CLOUD_NAME, CLOUDINARY_API_KEY, GEMINI_API_KEY])\<close>.\<close>

definition is_set :: "string option \<Rightarrow> bool" where
  "is_set v = (case v of None \<Rightarrow> False | Some s \<Rightarrow> s \<noteq> [])"

definition credentials_set :: "env \<Rightarrow> bool" where
  "credentials_set e =
     (is_set (CLOUDINARY_CLOUD_NAME e) \<and> is_set (CLOUDINARY_API_KEY e) \<and> is_set (GEMINI_API_KEY e))"

text \<open>
  \<^verbatim>\<open>main\<close>: without the credentials it returns at once. \<^verbatim>\<open>placeholder_image_replacer.py\<close>
  prints in both handlers; \<^verbatim>\<open>generate_articles.py\<close> calls \<^verbatim>\<open>create_summary_file\<close> in both.
\<close>

definition main_pir :: "env \<Rightarrow> state \<Rightarrow> (exn + unit) \<times> state" where
  "main_pir e st =
     (if \<not> credentials_set e then (Inr (), st)
      else (case process_all_markdown_files_pir e st of
              (Inl x, st') \<Rightarrow> (Inr (), st')
            | (Inr _, st') \<Rightarrow> (Inr (), st')))"

definition main_ga :: "env \<Rightarrow> state \<Rightarrow> (exn + unit) \<times> state" where
  "main_ga e st =
     (if \<not> credentials_set e then (Inr (), st)
      else (case process_all_markdown_files_ga e st of
              (Inl x, st') \<Rightarrow> create_summary_file e st'
            | (Inr _, st') \<Rightarrow> (Inr (), st')))"

section \<open>One substitution, as the specification words it\<close>

text \<open>
  The specification speaks of exactly one substitution of the sentinel URL, with
  first-match semantics: \<open>replace_first\<close> replaces the first occurrence of a non-empty
  \<open>old\<close> and nothing else. It is compared with \<^const>\<open>replace\<close>, which the scripts call.
\<close>

fun replace_first :: "string \<Rightarrow> string \<Rightarrow> string \<Rightarrow> string" where
  "replace_first [] old new = []"
| "replace_first (c # s) old new =
     (if startswith (c # s) old then new @ drop (length old) (c # s)
      else c # replace_first s old new)"

section \<open>Example documents and environments\<close>

text \<open>
  The inputs of the concrete runs below. \<open>toy_yaml\<close> stands for \<^verbatim>\<open>yaml.safe_load\<close> on the
  two blocks the examples use. In \<open>env_ok\<close> every call succeeds; \<open>env_busy\<close> answers every
  upload with status 429, \<open>env_quota\<close> fails every Gemini call with a quota error, and
  \<open>env_empty\<close> finds no markdown file.
\<close>

definition a_md :: string where
  "a_md = ''generated-articles/a.md''"

definition front_foo :: string where
  "front_foo = ''---'' @ [newline] @ ''title: Foo'' @ [newline] @ ''---'' @ [newline]"

definition doc_foo :: string where
  "doc_foo = front_foo @ ''See ![img]('' @ PLACEHOLDER_IMAGE_URL @ '')''"

definition doc_two :: string where
  "doc_two = front_foo @ PLACEHOLDER_IMAGE_URL @ '' '' @ PLACEHOLDER_IMAGE_URL"

definition doc_plain :: string where
  "doc_plain = front_foo @ ''No image here''"

definition doc_author :: string where
  "doc_author =
     ''---'' @ [newline] @ ''author: Bob'' @ [newline] @ ''---'' @ [newline]
     @ ''![img]('' @ PLACEHOLDER_IMAGE_URL @ '')''"

definition doc_unclosed :: string where
  "doc_unclosed =
     ''---'' @ [newline] @ ''title: Foo'' @ [newline] @ ''![img]('' @ PLACEHOLDER_IMAGE_URL @ '')''"

definition new_url :: string where
  "new_url = ''https://host/new.png''"

definition toy_yaml :: "string \<Rightarrow> string + yaml" where
  "toy_yaml s =
     (if s = ''title: Foo'' then Inr (YDict [(YStr ''title'', YStr ''Foo'')])
      else if s = ''author: Bob'' then Inr (YDict [(YStr ''author'', YStr ''Bob'')])
      else Inl ''could not parse'')"

definition toy_str :: "yaml \<Rightarrow> string" where
  "toy_str v = (case v of YStr s \<Rightarrow> s | _ \<Rightarrow> ''?'')"

definition image_part :: part where
  "image_part = Part (Some (Inline_data (Some ''image/png'') (Some ''bytes'')))"

definition ok_response :: http_response where
  "ok_response = \<lparr>status_code = 200, response_text = [], secure_url = Some new_url\<rparr>"


definition env_ok :: env where
  "env_ok =
     \<lparr>CLOUDINARY_CLOUD_NAME = Some ''cloud'', CLOUDINARY_API_KEY = Some ''key'',
      GEMINI_API_KEY = Some ''gem'', glob_md = [a_md],
      yaml_safe_load = toy_yaml, generate_content = (\<lambda>n. Inr [image_part]),
      requests_post = (\<lambda>n. Inr ok_response), sleep_interrupted = (\<lambda>n. False),
      writable = (\<lambda>p. True), now = ''2025-01-01 00:00:00'', str_yaml = toy_str\<rparr>"



definition env_empty :: env where
  "env_empty = env_ok\<lparr>glob_md := []\<rparr>"

definition no_stats :: stats where
  "no_stats =
     \<lparr>total_files = 0, files_with_placeholders = 0, successful_replacements = 0,
      failed_replacements = 0, skipped_files = 0, replaced_images = []\<rparr>"

definition state_with :: "string \<Rightarrow> state" where
  "state_with content =
     \<lparr>files = [a_md \<mapsto> content], gemini_calls = 0, upload_calls = 0, slept = [],
      stats = no_stats\<rparr>"

section \<open>Notions used in the statements\<close>

text \<open>
  The value of \<^verbatim>\<open>current_delay\<close> after a file that failed with outcome \<open>q\<close> (\<^verbatim>\<open>False\<close>
  returned, or an exception raised) when it was \<open>d\<close> before: doubled up to \<^verbatim>\<open>max_delay\<close>
  for an exception whose message has the rate-limit signature, and \<open>d\<close> otherwise.
\<close>

definition delay_after_failure :: "(exn + bool) \<Rightarrow> int \<Rightarrow> int" where
  "delay_after_failure q d =
     (case q of
        Inl (PyException m) \<Rightarrow> if rate_limit_signature m then min (d * 2) max_delay else d
      | _ \<Rightarrow> d)"

text \<open>The environment of a run that the user interrupts at the first \<^verbatim>\<open>time.sleep\<close>.\<close>

definition env_stop :: env where
  "env_stop = env_ok\<lparr>sleep_interrupted := (\<lambda>n. True)\<rparr>"

text \<open>
  The three outcome counters of \<^verbatim>\<open>stats\<close> together, and the invariant that ties the
  success counter to the list of replaced images.
\<close>

definition counted :: "stats \<Rightarrow> int" where
  "counted s = successful_replacements s + failed_replacements s + skipped_files s"

definition replaced_counted :: "stats \<Rightarrow> bool" where
  "replaced_counted s = (successful_replacements s = int (length (replaced_images s)))"

text \<open>
  The title a script finds for a document, and the state in which it calls
  \<^verbatim>\<open>generate_and_upload_image\<close>: \<^verbatim>\<open>generate_articles.py\<close> has counted the placeholder by
  then.
\<close>

definition title_found :: "script \<Rightarrow> env \<Rightarrow> string \<Rightarrow> string + yaml option" where
  "title_found sc e content =
     (case sc of
        Replacer \<Rightarrow> lookup_title (extract_front_matter_pir e content)
      | Articles \<Rightarrow> title_or_alternative e content)"

definition state_at_generation :: "script \<Rightarrow> state \<Rightarrow> state" where
  "state_at_generation sc st = (case sc of Replacer \<Rightarrow> st | Articles \<Rightarrow> count_placeholder st)"

text \<open>
  The text between the two markers as \<^verbatim>\<open>generate_articles.py\<close> cuts it out, for a content
  that starts with the opening marker.
\<close>

definition interior_ga :: "string \<Rightarrow> string" where
  "interior_ga content = strip (slice content 3 (find content ''---'' 3))"

text \<open>A document whose front matter the toy parser rejects.\<close>

definition doc_broken :: string where
  "doc_broken = ''---'' @ [newline] @ ''title: [Foo'' @ [newline] @ ''---'' @ [newline]"

text \<open>
  A path that \<^verbatim>\<open>glob\<close> returned and that is gone when the script opens it. Its name puts
  \<^verbatim>\<open>429\<close> into the message of the \<^verbatim>\<open>FileNotFoundError\<close>.
\<close>

definition md_429 :: string where
  "md_429 = ''generated-articles/429.md''"

section \<open>Properties\<close>

subsection \<open>Sleeping and the loop body of the batch driver\<close>

lemma sleep_done:
  "0 \<le> d \<Longrightarrow> \<not> sleep_interrupted e (length (slept st)) \<Longrightarrow>
   sleep e d st = (Inr (), st\<lparr>slept := slept st @ [d]\<rparr>)"
  by (simp add: sleep_def)

lemma sleep_cases:
  "sleep e d st = (r, st') \<Longrightarrow>
   (r = Inr () \<and> st' = st\<lparr>slept := slept st @ [d]\<rparr>) \<or> ((\<exists>x. r = Inl x) \<and> st' = st)"
  by (auto simp: sleep_def split: if_splits)

lemma sleep_Inr:
  "sleep e d st = (Inr u, st') \<Longrightarrow> st' = st\<lparr>slept := slept st @ [d]\<rparr> \<and> 0 \<le> d"
  by (auto simp: sleep_def split: if_splits)

lemma sleep_message_plain: "\<not> rate_limit_signature ''sleep length must be non-negative''"
  by code_simp

lemma sleep_PyException:
  "sleep e d st = (Inl (PyException m), st') \<Longrightarrow> d < 0 \<and> st' = st \<and> \<not> rate_limit_signature m"
  using sleep_message_plain by (auto simp: sleep_def split: if_splits)

lemma long_break_Inr:
  "long_break e l st = (Inr u, l', st') \<Longrightarrow>
   (if max_consecutive_failures \<le> consecutive_failures l
    then l' = l\<lparr>consecutive_failures := 0\<rparr> \<and> st' = st\<lparr>slept := slept st @ [min (current_delay l * 3) 120]\<rparr>
    else l' = l \<and> st' = st)"
  by (auto simp: long_break_def split: if_splits prod.splits sum.splits dest: sleep_Inr)

lemma process_file_try_cases:
  assumes "process_file_try sc e md_file l st = (r, l1, st1)"
      and "replace_image_in_markdown sc e md_file st = (q, st0)"
  shows "(case q of
            Inl x \<Rightarrow> r = Inl x \<and> l1 = l \<and> st1 = st0
          | Inr True \<Rightarrow>
              (case sleep e SUCCESS_DELAY st0 of
                 (Inl x, st2) \<Rightarrow> r = Inl x \<and> l1 = (note_success sc l)\<lparr>consecutive_failures := 0\<rparr> \<and> st1 = st2
               | (Inr u, st2) \<Rightarrow> r = Inr () \<and> l1 = (note_success sc l)\<lparr>consecutive_failures := 0, current_delay := base_delay\<rparr> \<and> st1 = st2)
          | Inr False \<Rightarrow>
              l1 = (note_failed sc md_file l)\<lparr>consecutive_failures := consecutive_failures l + 1\<rparr>
              \<and> (r, st1) = sleep e (current_delay l) st0)"
  using assms
  by (auto simp: process_file_try_def split: sum.splits bool.splits prod.splits)

lemma process_file_except_Inr:
  assumes "process_file_except sc e md_file m l st = (Inr u, l1, st1)"
  shows "l1 = (note_failed sc md_file l)
              \<lparr>consecutive_failures := consecutive_failures l + 1,
               current_delay := (if rate_limit_signature m then min (current_delay l * 2) max_delay
                                 else current_delay l)\<rparr>
         \<and> st1 = st\<lparr>slept := slept st @ [current_delay l1]\<rparr> \<and> 0 \<le> current_delay l1"
  using assms
  by (auto simp: process_file_except_def note_failed_def Let_def
           split: if_splits prod.splits sum.splits dest!: sleep_Inr)

lemma note_simps [simp]:
  "current_delay (note_success sc l) = current_delay l"
  "consecutive_failures (note_success sc l) = consecutive_failures l"
  "current_delay (note_failed sc f l) = current_delay l"
  "consecutive_failures (note_failed sc f l) = consecutive_failures l"
  by (simp_all add: note_success_def note_failed_def)

lemma process_file_succeeded:
  assumes q: "replace_image_in_markdown sc e md_file st = (Inr True, st0)"
      and p: "process_file sc e md_file l st = (Inr u, l', st')"
  shows "l' = (note_success sc l)\<lparr>consecutive_failures := 0, current_delay := base_delay\<rparr>
       \<and> st' = st0\<lparr>slept := slept st0 @ [SUCCESS_DELAY]\<rparr>"
proof -
  obtain r l1 st1 where t: "process_file_try sc e md_file l st = (r, l1, st1)"
    by (cases "process_file_try sc e md_file l st") auto
  note c = process_file_try_cases [OF t q]
  obtain r2 st2 where sl: "sleep e SUCCESS_DELAY st0 = (r2, st2)"
    by (cases "sleep e SUCCESS_DELAY st0") auto
  show ?thesis
  proof (cases r2)
    case (Inr v)
    with sl have st2: "st2 = st0\<lparr>slept := slept st0 @ [SUCCESS_DELAY]\<rparr>"
      by (auto dest: sleep_Inr)
    from c sl Inr have r: "r = Inr ()" "st1 = st2"
      "l1 = (note_success sc l)\<lparr>consecutive_failures := 0, current_delay := base_delay\<rparr>"
      by auto
    with p t have "long_break e l1 st1 = (Inr u, l', st')"
      by (simp add: process_file_def)
    from long_break_Inr [OF this] r st2 show ?thesis
      by (auto simp: max_consecutive_failures_def split: if_splits)
  next
    case (Inl x)
    with c sl have r: "r = Inl x" by auto
    show ?thesis
    proof (cases x)
      case KeyboardInterrupt
      with r p t show ?thesis by (simp add: process_file_def)
    next
      case (PyException m)
      with sl Inl have "SUCCESS_DELAY < 0" by (auto dest: sleep_PyException)
      then show ?thesis by (simp add: SUCCESS_DELAY_def)
    qed
  qed
qed

lemma process_file_failed:
  assumes q: "replace_image_in_markdown sc e md_file st = (q, st0)"
      and p: "process_file sc e md_file l st = (Inr u, l', st')"
      and f: "q \<noteq> Inr True"
  shows "0 \<le> delay_after_failure q (current_delay l)
       \<and> (if max_consecutive_failures \<le> consecutive_failures l + 1
           then l' = (note_failed sc md_file l)
                       \<lparr>consecutive_failures := 0,
                        current_delay := delay_after_failure q (current_delay l)\<rparr>
              \<and> st' = st0\<lparr>slept := slept st0 @ [delay_after_failure q (current_delay l),
                       min (delay_after_failure q (current_delay l) * 3) 120]\<rparr>
           else l' = (note_failed sc md_file l)
                       \<lparr>consecutive_failures := consecutive_failures l + 1,
                        current_delay := delay_after_failure q (current_delay l)\<rparr>
              \<and> st' = st0\<lparr>slept := slept st0 @ [delay_after_failure q (current_delay l)]\<rparr>)"
proof -
  obtain r l1 st1 where t: "process_file_try sc e md_file l st = (r, l1, st1)"
    by (cases "process_file_try sc e md_file l st") auto
  note c = process_file_try_cases [OF t q]
  show ?thesis
  proof (cases q)
    case (Inl x)
    with c have r: "r = Inl x" "l1 = l" "st1 = st0" by auto
    show ?thesis
    proof (cases x)
      case KeyboardInterrupt
      with p t r show ?thesis by (simp add: process_file_def)
    next
      case (PyException m)
      with p t r obtain l2 st2 where
        h: "process_file_except sc e md_file m l st0 = (Inr (), l2, st2)"
        and b: "long_break e l2 st2 = (Inr u, l', st')"
        by (auto simp: process_file_def split: prod.splits sum.splits)
      from process_file_except_Inr [OF h] long_break_Inr [OF b] Inl PyException
      show ?thesis by (auto simp: delay_after_failure_def split: if_splits)
    qed
  next
    case (Inr b)
    with f have b: "b = False" by auto
    with c Inr have l1: "l1 = (note_failed sc md_file l)\<lparr>consecutive_failures := consecutive_failures l + 1\<rparr>"
      and s: "sleep e (current_delay l) st0 = (r, st1)" by auto
    show ?thesis
    proof (cases r)
      case (Inr v)
      with p t have "long_break e l1 st1 = (Inr u, l', st')"
        by (simp add: process_file_def)
      from long_break_Inr [OF this] l1 b \<open>q = Inr b\<close> sleep_Inr [OF s [unfolded Inr]]
      show ?thesis
        by (auto simp: delay_after_failure_def split: if_splits)
    next
      case (Inl x)
      show ?thesis
      proof (cases x)
        case KeyboardInterrupt
        with Inl p t show ?thesis by (simp add: process_file_def)
      next
        case (PyException m)
        with Inl s have n: "current_delay l < 0" "st1 = st0" "\<not> rate_limit_signature m"
          by (auto dest: sleep_PyException)
        from PyException Inl p t obtain l2 st2 where
          h: "process_file_except sc e md_file m l1 st1 = (Inr (), l2, st2)"
          by (auto simp: process_file_def split: prod.splits sum.splits)
        from process_file_except_Inr [OF h] n l1 show ?thesis by auto
      qed
    qed
  qed
qed

subsection \<open>The example runs\<close>

lemma doc_foo_facts:
  "isin PLACEHOLDER_IMAGE_URL doc_foo"
  "lookup_title (extract_front_matter_pir env_ok doc_foo) = Inr (Some (YStr ''Foo''))"
  "replace doc_foo PLACEHOLDER_IMAGE_URL new_url = front_foo @ ''See ![img]('' @ new_url @ '')''"
  by code_simp+

lemma doc_plain_facts:
  "\<not> isin PLACEHOLDER_IMAGE_URL doc_plain"
  by code_simp

lemma basename_a_md: "basename a_md = ''a.md''"
  by code_simp

lemma env_ok_fields:
  "glob_md env_ok = [a_md]"
  "yaml_safe_load env_ok = toy_yaml"
  "generate_content env_ok n = Inr [image_part]"
  "requests_post env_ok n = Inr ok_response"
  "sleep_interrupted env_ok n = False"
  "writable env_ok p = True"
  "credentials_set env_ok"
  by (simp_all add: env_ok_def credentials_set_def is_set_def)

lemma upload_ok:
  "upload_to_cloudinary env_ok st = (Inr new_url, st\<lparr>upload_calls := Suc (upload_calls st)\<rparr>)"
  by (simp add: upload_to_cloudinary_def env_ok_fields ok_response_def)

lemma new_url_nonempty: "new_url \<noteq> []"
  by (simp add: new_url_def)

lemma generate_ok:
  "generate_and_upload_image sc env_ok title MAX_RETRIES BASE_RETRY_DELAY st =
     (Inr (Some new_url), st\<lparr>gemini_calls := Suc (gemini_calls st), upload_calls := Suc (upload_calls st)\<rparr>)"
proof -
  have g: "generate_content env_ok (gemini_calls st) = Inr [image_part]"
    by (simp add: env_ok_fields)
  have c: "check_part sc image_part = None"
    by (simp add: image_part_def)
  have u: "upload_loop env_ok BASE_RETRY_DELAY [1..MAX_RETRIES] None st' =
      (Inr (Some new_url), st'\<lparr>upload_calls := Suc (upload_calls st')\<rparr>)" for st'
    by (simp add: MAX_RETRIES_def upto.simps upload_step_def upload_try_def upload_ok new_url_nonempty)
  have "generation_step sc env_ok MAX_RETRIES BASE_RETRY_DELAY 1 st =
     (Inr (Some new_url), st\<lparr>gemini_calls := Suc (gemini_calls st), upload_calls := Suc (upload_calls st)\<rparr>)"
    by (simp add: generation_step_def generation_try_def g c u new_url_nonempty)
  then show ?thesis
    by (simp add: generate_and_upload_image_def MAX_RETRIES_def upto.simps)
qed

lemma run_foo_pir:
  "replace_image_in_markdown_pir env_ok a_md (state_with doc_foo) =
     (Inr True,
      \<lparr>files = [a_md \<mapsto> front_foo @ ''See ![img]('' @ new_url @ '')'', a_md @ ''.bak'' \<mapsto> doc_foo],
       gemini_calls = 1, upload_calls = 1, slept = [], stats = no_stats\<rparr>)"
  by (simp add: replace_image_in_markdown_pir_def state_with_def doc_foo_facts generate_ok
      new_url_nonempty write_file_def env_ok_fields)

lemma state_with_fields:
  "files (state_with c) = [a_md \<mapsto> c]" "gemini_calls (state_with c) = 0"
  "upload_calls (state_with c) = 0" "slept (state_with c) = []" "stats (state_with c) = no_stats"
  by (simp_all add: state_with_def)

lemma run_plain_pir:
  "replace_image_in_markdown_pir env_ok a_md (state_with doc_plain) = (Inr False, state_with doc_plain)"
  by (simp add: replace_image_in_markdown_pir_def state_with_fields doc_plain_facts)

lemma run_plain_ga:
  "replace_image_in_markdown_ga env_ok a_md (state_with doc_plain) =
     (Inr False, count_skipped (state_with doc_plain))"
  by (simp add: replace_image_in_markdown_ga_def replace_image_in_markdown_try_ga_def
      state_with_fields doc_plain_facts)

lemma drive_plain:
  "process_file Replacer env_ok a_md (initial_locals\<lparr>consecutive_failures := 2\<rparr>) (state_with doc_plain) =
     (Inr (),
      \<lparr>success_count = 0, failed_files = [''a.md''], current_delay = 3, consecutive_failures = 0\<rparr>,
      (state_with doc_plain)\<lparr>slept := [3, 9]\<rparr>)"
  by (simp add: process_file_def process_file_try_def run_plain_pir sleep_def env_ok_fields
      initial_locals_def base_delay_def note_failed_def basename_a_md long_break_def
      max_consecutive_failures_def state_with_fields)

lemma drive_foo:
  "process_file Replacer env_ok a_md initial_locals (state_with doc_foo) =
     (Inr (),
      \<lparr>success_count = 1, failed_files = [], current_delay = 3, consecutive_failures = 0\<rparr>,
      \<lparr>files = [a_md \<mapsto> front_foo @ ''See ![img]('' @ new_url @ '')'', a_md @ ''.bak'' \<mapsto> doc_foo],
       gemini_calls = 1, upload_calls = 1, slept = [60], stats = no_stats\<rparr>)"
  by (simp add: process_file_def process_file_try_def run_foo_pir sleep_def env_ok_fields
      initial_locals_def base_delay_def note_success_def long_break_def SUCCESS_DELAY_def
      max_consecutive_failures_def)

subsection \<open>What the retries leave alone\<close>

lemma sleep_frame:
  "sleep e d st = (r, st') \<Longrightarrow> files st' = files st \<and> stats st' = stats st"
  by (auto simp: sleep_def split: if_splits)

lemma upload_to_cloudinary_frame:
  "upload_to_cloudinary e st = (r, st') \<Longrightarrow> files st' = files st \<and> stats st' = stats st"
  by (auto simp: upload_to_cloudinary_def Let_def split: sum.splits if_splits option.splits)

lemma upload_try_frame:
  "upload_try e d k u st = (r, u', st') \<Longrightarrow> files st' = files st \<and> stats st' = stats st"
  by (auto simp: upload_try_def split: prod.splits sum.splits if_splits
      dest!: upload_to_cloudinary_frame sleep_frame)

lemma upload_step_frame:
  "upload_step e d k u st = (r, u', st') \<Longrightarrow> files st' = files st \<and> stats st' = stats st"
  by (auto simp: upload_step_def split: prod.splits sum.splits if_splits exn.splits
      dest!: upload_try_frame sleep_frame)

lemma upload_loop_frame:
  "upload_loop e d ks u st = (r, st') \<Longrightarrow> files st' = files st \<and> stats st' = stats st"
proof (induction ks arbitrary: u st)
  case Nil
  then show ?case by simp
next
  case (Cons k ks)
  obtain q u1 st1 where s: "upload_step e d k u st = (q, u1, st1)"
    by (cases "upload_step e d k u st") auto
  note f = upload_step_frame [OF s]
  show ?case
  proof (cases q)
    case (Inl x)
    with Cons.prems s f show ?thesis by simp
  next
    case (Inr b)
    show ?thesis
    proof (cases b)
      case True
      with Inr Cons.prems s f show ?thesis by simp
    next
      case False
      with Inr Cons.prems s have "upload_loop e d ks u1 st1 = (r, st')" by simp
      from Cons.IH [OF this] f show ?thesis by simp
    qed
  qed
qed

lemma wait_after_failure_frame:
  "wait_after_failure e n d k st = (r, st') \<Longrightarrow> files st' = files st \<and> stats st' = stats st"
  by (auto simp: wait_after_failure_def split: prod.splits sum.splits if_splits
      dest!: sleep_frame)

lemma generation_try_frame:
  assumes "generation_try sc e n d k st = (r, st')"
  shows "files st' = files st \<and> stats st' = stats st"
proof -
  let ?st0 = "st\<lparr>gemini_calls := Suc (gemini_calls st)\<rparr>"
  have w: "\<And>s r' s'. wait_after_failure e n d k s = (r', s') \<Longrightarrow> files s = files st \<Longrightarrow> stats s = stats st
     \<Longrightarrow> files s' = files st \<and> stats s' = stats st"
    by (drule wait_after_failure_frame) simp
  have u: "\<And>r' s'. upload_loop e d [1..n] None ?st0 = (r', s') \<Longrightarrow> files s' = files st \<and> stats s' = stats st"
    by (drule upload_loop_frame) simp
  from assms show ?thesis
    by (auto simp: generation_try_def Let_def split: sum.splits list.splits option.splits
        prod.splits if_splits dest: w u)
qed

lemma generation_step_frame:
  "generation_step sc e n d k st = (r, st') \<Longrightarrow> files st' = files st \<and> stats st' = stats st"
  by (auto simp: generation_step_def split: prod.splits sum.splits if_splits exn.splits
      dest!: generation_try_frame sleep_frame)

lemma generation_loop_frame:
  "generation_loop sc e n d ks st = (r, st') \<Longrightarrow> files st' = files st \<and> stats st' = stats st"
proof (induction ks arbitrary: st)
  case Nil
  then show ?case by simp
next
  case (Cons k ks)
  obtain q st1 where s: "generation_step sc e n d k st = (q, st1)"
    by (cases "generation_step sc e n d k st") auto
  note f = generation_step_frame [OF s]
  show ?case
  proof (cases "q = Inr None")
    case True
    with Cons.prems s have "generation_loop sc e n d ks st1 = (r, st')" by simp
    from Cons.IH [OF this] f show ?thesis by simp
  next
    case False
    with Cons.prems s have "r = q \<and> st' = st1"
      by (auto split: sum.splits option.splits)
    with f show ?thesis by simp
  qed
qed

lemma generate_and_upload_image_frame:
  "generate_and_upload_image sc e title n d st = (r, st') \<Longrightarrow>
   files st' = files st \<and> stats st' = stats st"
  unfolding generate_and_upload_image_def by (rule generation_loop_frame)

subsection \<open>Files without the placeholder\<close>

lemma run_without_placeholder:
  assumes "files st md_file = Some content" and "\<not> isin PLACEHOLDER_IMAGE_URL content"
  shows "replace_image_in_markdown sc e md_file st =
           (Inr False, if sc = Articles then count_skipped st else st)"
  using assms
  by (cases sc)
     (simp_all add: replace_image_in_markdown_pir_def replace_image_in_markdown_ga_def
        replace_image_in_markdown_try_ga_def)

lemma drive_plain_first:
  "process_file Replacer env_ok a_md initial_locals (state_with doc_plain) =
     (Inr (),
      \<lparr>success_count = 0, failed_files = [''a.md''], current_delay = 3, consecutive_failures = 1\<rparr>,
      (state_with doc_plain)\<lparr>slept := [3]\<rparr>)"
  by (simp add: process_file_def process_file_try_def run_plain_pir sleep_def env_ok_fields
      initial_locals_def base_delay_def note_failed_def basename_a_md long_break_def
      max_consecutive_failures_def state_with_fields)

subsection \<open>The summary report\<close>

lemma long_break_frame:
  "long_break e l st = (r, l', st') \<Longrightarrow> files st' = files st \<and> stats st' = stats st"
  by (auto simp: long_break_def split: if_splits prod.splits sum.splits dest!: sleep_frame)

lemma process_file_except_frame:
  "process_file_except sc e f m l st = (r, l', st') \<Longrightarrow> files st' = files st \<and> stats st' = stats st"
  by (auto simp: process_file_except_def Let_def split: if_splits prod.splits sum.splits
      dest!: sleep_frame)

lemma process_file_try_frame:
  assumes "process_file_try sc e f l st = (r, l', st')"
      and "replace_image_in_markdown sc e f st = (q, st0)"
  shows "files st' = files st0 \<and> stats st' = stats st0"
  using assms
  by (auto simp: process_file_try_def split: if_splits prod.splits sum.splits bool.splits
      dest!: sleep_frame)

lemma process_file_frame:
  assumes p: "process_file sc e f l st = (r, l', st')"
      and q: "replace_image_in_markdown sc e f st = (q, st0)"
  shows "files st' = files st0 \<and> stats st' = stats st0"
proof -
  obtain r1 l1 st1 where t: "process_file_try sc e f l st = (r1, l1, st1)"
    by (cases "process_file_try sc e f l st") auto
  note a = process_file_try_frame [OF t q]
  from p t a show ?thesis
    by (auto simp: process_file_def split: prod.splits sum.splits exn.splits
        dest!: long_break_frame process_file_except_frame)
qed

lemma write_file_other:
  "write_file e p c st = (r, st') \<Longrightarrow> p' \<noteq> p \<Longrightarrow> files st' p' = files st p'"
  by (auto simp: write_file_def split: if_splits)

lemma write_file_stats:
  "write_file e p c st = (r, st') \<Longrightarrow> stats st' = stats st"
  by (auto simp: write_file_def split: if_splits)

lemma replace_pir_other_files:
  assumes r: "replace_image_in_markdown_pir e f st = (r, st')"
      and p: "p \<noteq> f" "p \<noteq> f @ ''.bak''"
  shows "files st' p = files st p"
proof -
  have g: "\<And>t q s. generate_and_upload_image Replacer e t MAX_RETRIES BASE_RETRY_DELAY st = (q, s)
      \<Longrightarrow> files s = files st"
    by (drule generate_and_upload_image_frame) simp
  have w: "\<And>c s q s'. write_file e f c s = (q, s') \<Longrightarrow> files s' p = files s p"
    using p by (auto dest: write_file_other)
  have b: "\<And>c s q s'. write_file e (f @ ''.bak'') c s = (q, s') \<Longrightarrow> files s' p = files s p"
    using p by (auto dest: write_file_other)
  from r show ?thesis
    by (auto simp: replace_image_in_markdown_pir_def
        split: option.splits if_splits sum.splits prod.splits dest!: g w b)
qed

lemma process_files_pir_other_files:
  assumes "process_files Replacer e fs l st = (r, l', st')"
      and "\<forall>f \<in> set fs. p \<noteq> f \<and> p \<noteq> f @ ''.bak''"
  shows "files st' p = files st p"
  using assms
proof (induction fs arbitrary: l st)
  case Nil
  then show ?case by simp
next
  case (Cons f fs)
  obtain q st0 where q: "replace_image_in_markdown_pir e f st = (q, st0)"
    by (cases "replace_image_in_markdown_pir e f st") auto
  obtain r1 l1 st1 where s: "process_file Replacer e f l st = (r1, l1, st1)"
    by (cases "process_file Replacer e f l st") auto
  from process_file_frame [OF s, of q st0] q have a: "files st1 = files st0" by simp
  from replace_pir_other_files [OF q, of p] Cons.prems(2) have b: "files st0 p = files st p"
    by simp
  show ?case
  proof (cases r1)
    case (Inl x)
    with Cons.prems(1) s a b show ?thesis by simp
  next
    case (Inr u)
    with Cons.prems(1) s have "process_files Replacer e fs l1 st1 = (r, l', st')" by simp
    from Cons.IH [OF this] Cons.prems(2) a b show ?thesis by simp
  qed
qed

lemma main_pir_other_files:
  assumes "\<forall>f \<in> set (glob_md e). p \<noteq> f \<and> p \<noteq> f @ ''.bak''"
  shows "files (snd (main_pir e st)) p = files st p"
proof -
  obtain r l st' where s: "process_files Replacer e (glob_md e) initial_locals st = (r, l, st')"
    by (cases "process_files Replacer e (glob_md e) initial_locals st") auto
  from process_files_pir_other_files [OF s assms] s show ?thesis
    by (auto simp: main_pir_def process_all_markdown_files_pir_def split: sum.splits)
qed

lemma summary_file_facts:
  "SUMMARY_FILE \<noteq> a_md" "SUMMARY_FILE \<noteq> a_md @ ''.bak''"
  by (simp_all add: SUMMARY_FILE_def a_md_def)

lemma env_ok_credentials: "credentials_set env_ok"
  by (simp add: credentials_set_def is_set_def env_ok_def)

lemma env_stop_fields:
  "glob_md env_stop = [a_md]"
  "credentials_set env_stop"
  "writable env_stop p"
  "sleep_interrupted env_stop n"
  by (simp_all add: env_stop_def env_ok_def credentials_set_def is_set_def)

lemma env_empty_fields:
  "glob_md env_empty = []"
  "credentials_set env_empty"
  by (simp_all add: env_empty_def env_ok_def credentials_set_def is_set_def)

lemma drive_stop:
  assumes "files st a_md = Some doc_plain"
  shows "process_files Articles env_stop [a_md] initial_locals st =
     (Inl KeyboardInterrupt, initial_locals\<lparr>consecutive_failures := 1\<rparr>, count_skipped st)"
proof -
  from run_without_placeholder [OF assms doc_plain_facts, of Articles env_stop]
  have "replace_image_in_markdown_ga env_stop a_md st = (Inr False, count_skipped st)"
    by simp
  then show ?thesis
    by (simp add: process_file_def process_file_try_def sleep_def env_stop_fields
        note_failed_def initial_locals_def base_delay_def)
qed

text \<open>
  C9, as amended. In \<^verbatim>\<open>generate_articles.py\<close>, when the three credentials are set, \<^verbatim>\<open>glob\<close>
  finds at least one markdown file and the summary file can be written, \<^verbatim>\<open>main\<close> ends
  with the summary file holding the report of the statistics reached, whatever the way
  the batch ended (\<open>r\<close>: normal completion, \<^verbatim>\<open>KeyboardInterrupt\<close>, or any other exception
  out of the batch driver). \<^verbatim>\<open>placeholder_image_replacer.py\<close> writes no summary file: a
  path that is neither a markdown file found nor the backup of one is left as it was.
\<close>

theorem summary_written_by_generate_articles:
  assumes "credentials_set e" and "glob_md e \<noteq> []" and "writable e SUMMARY_FILE"
      and "process_files Articles e (glob_md e) initial_locals
             (st\<lparr>stats := (stats st)\<lparr>total_files := int (length (glob_md e))\<rparr>\<rparr>) = (r, l, st')"
  shows "main_ga e st =
           (Inr (), st'\<lparr>files := (files st')(SUMMARY_FILE \<mapsto> summary_text e (stats st'))\<rparr>)
       \<and> ((\<forall>f \<in> set (glob_md e). SUMMARY_FILE \<noteq> f \<and> SUMMARY_FILE \<noteq> f @ ''.bak'') \<longrightarrow>
            files (snd (main_pir e st)) SUMMARY_FILE = files st SUMMARY_FILE)"
proof -
  have "main_ga e st =
          (Inr (), st'\<lparr>files := (files st')(SUMMARY_FILE \<mapsto> summary_text e (stats st'))\<rparr>)"
    using assms
    by (cases r)
       (simp_all add: main_ga_def process_all_markdown_files_ga_def create_summary_file_def
          write_file_def)
  with main_pir_other_files [of e SUMMARY_FILE st] show ?thesis
    by simp
qed

theorem summary_written_by_generate_articles_witness:
  "main_ga env_stop (state_with doc_plain) =
     (Inr (),
      (count_skipped ((state_with doc_plain)\<lparr>stats := no_stats\<lparr>total_files := 1\<rparr>\<rparr>))
        \<lparr>files := [a_md \<mapsto> doc_plain,
                   SUMMARY_FILE \<mapsto> summary_text env_stop (no_stats\<lparr>total_files := 1, skipped_files := 1\<rparr>)]\<rparr>)
   \<and> files (snd (main_pir env_stop (state_with doc_plain))) SUMMARY_FILE = None"
proof -
  let ?st = "(state_with doc_plain)\<lparr>stats := no_stats\<lparr>total_files := 1\<rparr>\<rparr>"
  have d: "process_files Articles env_stop (glob_md env_stop) initial_locals
             ((state_with doc_plain)\<lparr>stats := (stats (state_with doc_plain))
                \<lparr>total_files := int (length (glob_md env_stop))\<rparr>\<rparr>) =
           (Inl KeyboardInterrupt, initial_locals\<lparr>consecutive_failures := 1\<rparr>, count_skipped ?st)"
    using drive_stop [of ?st]
    by (simp add: env_stop_fields state_with_fields del: process_files.simps)
  from summary_written_by_generate_articles [OF env_stop_fields(2) _ env_stop_fields(3) d]
  show ?thesis
    by (simp add: env_stop_fields state_with_fields summary_file_facts count_skipped_def
        no_stats_def)
qed

theorem no_summary_without_markdown_files:
  "credentials_set env_empty
   \<and> main_ga env_empty (state_with doc_foo) = (Inr (), state_with doc_foo)
   \<and> files (state_with doc_foo) SUMMARY_FILE = None"
  by (simp add: main_ga_def process_all_markdown_files_ga_def env_empty_fields state_with_fields
      summary_file_facts)

subsection \<open>The statistics of \<^verbatim>\<open>generate_articles.py\<close>\<close>

lemma count_simps:
  "stats (count_failed st) = (stats st)\<lparr>failed_replacements := failed_replacements (stats st) + 1\<rparr>"
  "stats (count_skipped st) = (stats st)\<lparr>skipped_files := skipped_files (stats st) + 1\<rparr>"
  "stats (count_placeholder st) =
     (stats st)\<lparr>files_with_placeholders := files_with_placeholders (stats st) + 1\<rparr>"
  "stats (count_success b t u st) =
     (stats st)\<lparr>successful_replacements := successful_replacements (stats st) + 1,
        replaced_images := replaced_images (stats st)
           @ [\<lparr>item_file = b, item_title = t, item_image_url = u\<rparr>]\<rparr>"
  by (simp_all add: count_failed_def count_skipped_def count_placeholder_def count_success_def)

lemma try_ga_stats:
  assumes "replace_image_in_markdown_try_ga e f st = (q, st1)"
  shows "(case q of
            Inl x \<Rightarrow> stats st1 = stats st \<or> stats st1 = stats (count_placeholder st)
          | Inr True \<Rightarrow>
              successful_replacements (stats st1) = successful_replacements (stats st) + 1
              \<and> failed_replacements (stats st1) = failed_replacements (stats st)
              \<and> skipped_files (stats st1) = skipped_files (stats st)
              \<and> length (replaced_images (stats st1)) = Suc (length (replaced_images (stats st)))
              \<and> total_files (stats st1) = total_files (stats st)
          | Inr False \<Rightarrow> stats st1 = stats (count_skipped st) \<or> stats st1 = stats (count_failed st)
                          \<or> stats st1 = stats (count_failed (count_placeholder st)))"
proof (cases "files st f")
  case None
  with assms show ?thesis
    by (auto simp: replace_image_in_markdown_try_ga_def)
next
  case (Some content)
  show ?thesis
  proof (cases "isin PLACEHOLDER_IMAGE_URL content")
    case False
    with Some assms show ?thesis
      by (auto simp: replace_image_in_markdown_try_ga_def)
  next
    case True
    show ?thesis
    proof (cases "title_or_alternative e content")
      case (Inl m)
      with True Some assms show ?thesis
        by (auto simp: replace_image_in_markdown_try_ga_def)
    next
      case (Inr t)
      show ?thesis
      proof (cases t)
        case None
        with Inr True Some assms show ?thesis
          by (auto simp: replace_image_in_markdown_try_ga_def)
      next
        case (Some title)
        obtain g st0 where g: "generate_and_upload_image Articles e title MAX_RETRIES
            BASE_RETRY_DELAY (count_placeholder st) = (g, st0)"
          by (cases "generate_and_upload_image Articles e title MAX_RETRIES
            BASE_RETRY_DELAY (count_placeholder st)") auto
        from generate_and_upload_image_frame [OF g]
        have s0: "stats st0 = stats (count_placeholder st)" by simp
        have w: "\<And>p c s r s'. write_file e p c s = (r, s') \<Longrightarrow> stats s' = stats s"
          by (rule write_file_stats)
        from assms Some Inr True \<open>files st f = Some content\<close> g s0 show ?thesis
          by (auto simp: replace_image_in_markdown_try_ga_def count_simps
              split: sum.splits option.splits if_splits prod.splits dest!: w)
      qed
    qed
  qed
qed

lemma ga_stats:
  assumes "replace_image_in_markdown_ga e f st = (q, st1)"
  shows "(case q of
            Inl KeyboardInterrupt \<Rightarrow>
              stats st1 = stats st \<or> stats st1 = stats (count_placeholder st)
          | Inl (PyException m) \<Rightarrow>
              stats st1 = stats (count_failed st)
              \<or> stats st1 = stats (count_failed (count_placeholder st))
          | Inr True \<Rightarrow>
              successful_replacements (stats st1) = successful_replacements (stats st) + 1
              \<and> failed_replacements (stats st1) = failed_replacements (stats st)
              \<and> skipped_files (stats st1) = skipped_files (stats st)
              \<and> length (replaced_images (stats st1)) = Suc (length (replaced_images (stats st)))
              \<and> total_files (stats st1) = total_files (stats st)
          | Inr False \<Rightarrow> stats st1 = stats (count_skipped st) \<or> stats st1 = stats (count_failed st)
                          \<or> stats st1 = stats (count_failed (count_placeholder st)))"
proof -
  obtain q0 st0 where t: "replace_image_in_markdown_try_ga e f st = (q0, st0)"
    by (cases "replace_image_in_markdown_try_ga e f st") auto
  from try_ga_stats [OF t] assms t show ?thesis
    by (auto simp: replace_image_in_markdown_ga_def count_simps
        split: sum.splits exn.splits bool.splits)
qed

lemma ga_counted:
  assumes "replace_image_in_markdown_ga e f st = (q, st1)" and "q \<noteq> Inl KeyboardInterrupt"
  shows "counted (stats st1) = counted (stats st) + 1"
  using ga_stats [OF assms(1)] assms(2)
  by (auto simp: counted_def count_simps split: sum.splits exn.splits bool.splits)

lemma ga_replaced_counted:
  assumes "replace_image_in_markdown_ga e f st = (q, st1)" and "replaced_counted (stats st)"
  shows "replaced_counted (stats st1)"
  using ga_stats [OF assms(1)] assms(2)
  by (auto simp: replaced_counted_def count_simps split: sum.splits exn.splits bool.splits)

lemma process_file_Inr_not_interrupted:
  assumes "process_file sc e f l st = (Inr u, l', st')"
      and "replace_image_in_markdown sc e f st = (q, st0)"
  shows "q \<noteq> Inl KeyboardInterrupt"
  using assms
  by (auto simp: process_file_def process_file_try_def split: prod.splits sum.splits exn.splits)

lemma process_files_replaced_counted:
  assumes "process_files Articles e fs l st = (r, l', st')" and "replaced_counted (stats st)"
  shows "replaced_counted (stats st')"
  using assms
proof (induction fs arbitrary: l st)
  case Nil
  then show ?case by simp
next
  case (Cons f fs)
  obtain q st0 where q: "replace_image_in_markdown_ga e f st = (q, st0)"
    by (cases "replace_image_in_markdown_ga e f st") auto
  obtain r1 l1 st1 where s: "process_file Articles e f l st = (r1, l1, st1)"
    by (cases "process_file Articles e f l st") auto
  from process_file_frame [OF s, of q st0] q have a: "stats st1 = stats st0" by simp
  from ga_replaced_counted [OF q Cons.prems(2)] a have b: "replaced_counted (stats st1)" by simp
  show ?case
  proof (cases r1)
    case (Inl x)
    with Cons.prems(1) s b show ?thesis by simp
  next
    case (Inr u)
    with Cons.prems(1) s have "process_files Articles e fs l1 st1 = (r, l', st')" by simp
    from Cons.IH [OF this b] show ?thesis .
  qed
qed

lemma process_files_counted:
  assumes "process_files Articles e fs l st = (Inr u, l', st')"
  shows "counted (stats st') = counted (stats st) + int (length fs)"
  using assms
proof (induction fs arbitrary: l st)
  case Nil
  then show ?case by simp
next
  case (Cons f fs)
  obtain q st0 where q: "replace_image_in_markdown_ga e f st = (q, st0)"
    by (cases "replace_image_in_markdown_ga e f st") auto
  obtain r1 l1 st1 where s: "process_file Articles e f l st = (r1, l1, st1)"
    by (cases "process_file Articles e f l st") auto
  from process_file_frame [OF s, of q st0] q have a: "stats st1 = stats st0" by simp
  show ?case
  proof (cases r1)
    case (Inl x)
    with Cons.prems s show ?thesis by simp
  next
    case (Inr v)
    with Cons.prems s have p: "process_files Articles e fs l1 st1 = (Inr u, l', st')" by simp
    from process_file_Inr_not_interrupted [OF s [unfolded Inr], of q st0] q
    have "q \<noteq> Inl KeyboardInterrupt" by simp
    from ga_counted [OF q this] Cons.IH [OF p] a show ?thesis by simp
  qed
qed


lemma doc_foo_title_ga:
  "title_or_alternative env_ok doc_foo = Inr (Some (YStr ''Foo''))"
  by code_simp

lemma run_foo_ga:
  "replace_image_in_markdown_ga env_ok a_md (state_with doc_foo) =
     (Inr True,
      \<lparr>files = [a_md \<mapsto> front_foo @ ''See ![img]('' @ new_url @ '')'', a_md @ ''.bak'' \<mapsto> doc_foo],
       gemini_calls = 1, upload_calls = 1, slept = [],
       stats = no_stats\<lparr>files_with_placeholders := 1, successful_replacements := 1,
         replaced_images := [\<lparr>item_file = ''a.md'', item_title = YStr ''Foo'',
                               item_image_url = new_url\<rparr>]\<rparr>\<rparr>)"
  by (simp add: replace_image_in_markdown_ga_def replace_image_in_markdown_try_ga_def
      state_with_def doc_foo_facts doc_foo_title_ga generate_ok count_placeholder_def
      count_success_def new_url_nonempty write_file_def env_ok_fields basename_a_md no_stats_def)

lemma drive_foo_ga:
  "process_files Articles env_ok [a_md] initial_locals (state_with doc_foo) =
     (Inr (), initial_locals,
      \<lparr>files = [a_md \<mapsto> front_foo @ ''See ![img]('' @ new_url @ '')'', a_md @ ''.bak'' \<mapsto> doc_foo],
       gemini_calls = 1, upload_calls = 1, slept = [60],
       stats = no_stats\<lparr>files_with_placeholders := 1, successful_replacements := 1,
         replaced_images := [\<lparr>item_file = ''a.md'', item_title = YStr ''Foo'',
                               item_image_url = new_url\<rparr>]\<rparr>\<rparr>)"
  by (simp add: process_file_def process_file_try_def run_foo_ga sleep_def env_ok_fields
      initial_locals_def note_success_def long_break_def SUCCESS_DELAY_def
      max_consecutive_failures_def)

lemma ga_total_files:
  assumes "replace_image_in_markdown_ga e f st = (q, st1)"
  shows "total_files (stats st1) = total_files (stats st)"
  using ga_stats [OF assms]
  by (auto simp: count_simps split: sum.splits exn.splits bool.splits)

lemma process_files_total_files:
  assumes "process_files Articles e fs l st = (r, l', st')"
  shows "total_files (stats st') = total_files (stats st)"
  using assms
proof (induction fs arbitrary: l st)
  case Nil
  then show ?case by simp
next
  case (Cons f fs)
  obtain q st0 where q: "replace_image_in_markdown_ga e f st = (q, st0)"
    by (cases "replace_image_in_markdown_ga e f st") auto
  obtain r1 l1 st1 where s: "process_file Articles e f l st = (r1, l1, st1)"
    by (cases "process_file Articles e f l st") auto
  from process_file_frame [OF s, of q st0] q ga_total_files [OF q]
  have a: "total_files (stats st1) = total_files (stats st)" by simp
  show ?case
  proof (cases r1)
    case (Inl x)
    with Cons.prems s a show ?thesis by simp
  next
    case (Inr u)
    with Cons.prems s have "process_files Articles e fs l1 st1 = (r, l', st')" by simp
    from Cons.IH [OF this] a show ?thesis by simp
  qed
qed

lemma process_all_ga_counted:
  assumes p: "process_all_markdown_files_ga e st = (Inr u, st')" and g: "glob_md e \<noteq> []"
  shows "counted (stats st') = counted (stats st) + total_files (stats st')"
proof -
  let ?st = "st\<lparr>stats := (stats st)\<lparr>total_files := int (length (glob_md e))\<rparr>\<rparr>"
  obtain r l st0 where s: "process_files Articles e (glob_md e) initial_locals ?st = (r, l, st0)"
    by (cases "process_files Articles e (glob_md e) initial_locals ?st") auto
  from p g s obtain v where r: "r = Inr v" and c: "create_summary_file e st0 = (Inr u, st')"
    by (auto simp: process_all_markdown_files_ga_def split: sum.splits)
  from c have "stats st' = stats st0"
    by (auto simp: create_summary_file_def dest: write_file_stats)
  with process_files_counted [OF s [unfolded r]] process_files_total_files [OF s]
  show ?thesis by (simp add: counted_def)
qed

lemma main_ga_replaced_counted:
  assumes "replaced_counted (stats st)"
  shows "replaced_counted (stats (snd (main_ga e st)))"
proof -
  let ?st = "st\<lparr>stats := (stats st)\<lparr>total_files := int (length (glob_md e))\<rparr>\<rparr>"
  obtain r l st0 where s: "process_files Articles e (glob_md e) initial_locals ?st = (r, l, st0)"
    by (cases "process_files Articles e (glob_md e) initial_locals ?st") auto
  from assms have "replaced_counted (stats ?st)"
    by (simp add: replaced_counted_def)
  from process_files_replaced_counted [OF s this] have a: "replaced_counted (stats st0)" .
  have w: "\<And>s r s'. create_summary_file e s = (r, s') \<Longrightarrow> stats s' = stats s"
    by (auto simp: create_summary_file_def dest: write_file_stats)
  obtain r1 st1 where c: "create_summary_file e st0 = (r1, st1)"
    by (cases "create_summary_file e st0") auto
  obtain r2 st2 where d: "create_summary_file e st1 = (r2, st2)"
    by (cases "create_summary_file e st1") auto
  from w [OF c] w [OF d] a assms s c d show ?thesis
    by (auto simp: main_ga_def process_all_markdown_files_ga_def split: sum.splits prod.splits)
qed

lemma all_plain_ga:
  "process_all_markdown_files_ga env_ok (state_with doc_plain) =
     (Inr (),
      \<lparr>files = [a_md \<mapsto> doc_plain,
                 SUMMARY_FILE \<mapsto> summary_text env_ok (no_stats\<lparr>total_files := 1, skipped_files := 1\<rparr>)],
       gemini_calls = 0, upload_calls = 0, slept = [3],
       stats = no_stats\<lparr>total_files := 1, skipped_files := 1\<rparr>\<rparr>)"
proof -
  let ?st = "(state_with doc_plain)\<lparr>stats := no_stats\<lparr>total_files := 1\<rparr>\<rparr>"
  have f: "files ?st a_md = Some doc_plain"
    by (simp add: state_with_fields)
  from run_without_placeholder [OF f doc_plain_facts, of Articles env_ok]
  have r: "replace_image_in_markdown_ga env_ok a_md ?st = (Inr False, count_skipped ?st)"
    by simp
  have "process_files Articles env_ok [a_md] initial_locals ?st =
      (Inr (), initial_locals\<lparr>consecutive_failures := 1\<rparr>,
       (count_skipped ?st)\<lparr>slept := [3]\<rparr>)"
    by (simp add: process_file_def process_file_try_def r sleep_def env_ok_fields
        note_failed_def initial_locals_def base_delay_def long_break_def
        max_consecutive_failures_def count_skipped_def state_with_fields)
  then show ?thesis
    by (simp add: process_all_markdown_files_ga_def env_ok_fields create_summary_file_def
        write_file_def count_skipped_def state_with_fields)
       (simp add: state_with_def no_stats_def)
qed

text \<open>
  C10. The counters start at 0 and \<^verbatim>\<open>replaced_images\<close> empty (\<open>no_stats\<close>). In \<^verbatim>\<open>generate_articles.py\<close>, a call of \<^verbatim>\<open>replace_image_in_markdown\<close> that returns
  \<^verbatim>\<open>True\<close> adds one to \<^verbatim>\<open>successful_replacements\<close> and leaves \<^verbatim>\<open>failed_replacements\<close> and
  \<^verbatim>\<open>skipped_files\<close> as they are; one that returns \<^verbatim>\<open>False\<close> adds one to exactly one of
  \<^verbatim>\<open>failed_replacements\<close> and \<^verbatim>\<open>skipped_files\<close> and leaves the other two. If
  \<^verbatim>\<open>successful_replacements\<close> is the length of \<^verbatim>\<open>replaced_images\<close> before a call, or before
  the batch, it is so afterwards, however the call or the batch ends. After a batch that
  ran to its end, the three counters together have grown by the number of files, so
  that from the initial statistics they add up to \<^verbatim>\<open>total_files\<close>.
\<close>

theorem statistics_invariant:
  "(replace_image_in_markdown_ga e f st = (Inr b, st1) \<longrightarrow>
      (if b
       then successful_replacements (stats st1) = successful_replacements (stats st) + 1
            \<and> failed_replacements (stats st1) = failed_replacements (stats st)
            \<and> skipped_files (stats st1) = skipped_files (stats st)
       else successful_replacements (stats st1) = successful_replacements (stats st)
            \<and> (failed_replacements (stats st1) = failed_replacements (stats st) + 1
                  \<and> skipped_files (stats st1) = skipped_files (stats st)
                \<or> failed_replacements (stats st1) = failed_replacements (stats st)
                  \<and> skipped_files (stats st1) = skipped_files (stats st) + 1)))
   \<and> (replace_image_in_markdown_ga e f st = (q, st1) \<and> replaced_counted (stats st) \<longrightarrow>
        replaced_counted (stats st1))
   \<and> (process_files Articles e fs l st = (r, l', st2) \<and> replaced_counted (stats st) \<longrightarrow>
        replaced_counted (stats st2))
   \<and> (process_files Articles e fs l st = (Inr u, l', st2) \<longrightarrow>
        counted (stats st2) = counted (stats st) + int (length fs))
   \<and> replaced_counted (stats (snd (main_ga e (st\<lparr>stats := no_stats\<rparr>))))
   \<and> (process_all_markdown_files_ga e (st\<lparr>stats := no_stats\<rparr>) = (Inr u, st3)
        \<and> glob_md e \<noteq> [] \<longrightarrow>
        counted (stats st3) = total_files (stats st3))"
proof -
  have m: "replaced_counted (stats (snd (main_ga e (st\<lparr>stats := no_stats\<rparr>))))"
    by (rule main_ga_replaced_counted) (simp add: replaced_counted_def no_stats_def)
  have n: "counted (stats st3) = total_files (stats st3)"
    if "process_all_markdown_files_ga e (st\<lparr>stats := no_stats\<rparr>) = (Inr u, st3)"
      and "glob_md e \<noteq> []"
    using process_all_ga_counted [OF that] by (simp add: counted_def no_stats_def)
  have "if b
       then successful_replacements (stats st1) = successful_replacements (stats st) + 1
            \<and> failed_replacements (stats st1) = failed_replacements (stats st)
            \<and> skipped_files (stats st1) = skipped_files (stats st)
       else successful_replacements (stats st1) = successful_replacements (stats st)
            \<and> (failed_replacements (stats st1) = failed_replacements (stats st) + 1
                  \<and> skipped_files (stats st1) = skipped_files (stats st)
                \<or> failed_replacements (stats st1) = failed_replacements (stats st)
                  \<and> skipped_files (stats st1) = skipped_files (stats st) + 1)"
    if "replace_image_in_markdown_ga e f st = (Inr b, st1)"
    using ga_stats [OF that] by (cases b) (auto simp: count_simps)
  with m n show ?thesis
    using ga_replaced_counted [of e f st q st1]
      process_files_replaced_counted [of e fs l st r l' st2]
      process_files_counted [of e fs l st u l' st2]
    by blast
qed

theorem statistics_invariant_witness:
  "successful_replacements
     (stats (snd (replace_image_in_markdown_ga env_ok a_md (state_with doc_foo)))) = 1
   \<and> failed_replacements
     (stats (snd (replace_image_in_markdown_ga env_ok a_md (state_with doc_foo)))) = 0
   \<and> skipped_files
     (stats (snd (replace_image_in_markdown_ga env_ok a_md (state_with doc_foo)))) = 0
   \<and> replaced_counted
     (stats (snd (replace_image_in_markdown_ga env_ok a_md (state_with doc_foo))))
   \<and> replaced_counted
     (stats (snd (snd (process_files Articles env_ok [a_md] initial_locals (state_with doc_foo)))))
   \<and> counted
     (stats (snd (snd (process_files Articles env_ok [a_md] initial_locals (state_with doc_foo))))) = 1
   \<and> total_files (stats (snd (process_all_markdown_files_ga env_ok (state_with doc_plain)))) = 1
   \<and> counted (stats (snd (process_all_markdown_files_ga env_ok (state_with doc_plain)))) = 1"
proof -
  let ?call = "replace_image_in_markdown_ga env_ok a_md (state_with doc_foo)"
  let ?run = "process_files Articles env_ok [a_md] initial_locals (state_with doc_foo)"
  let ?all = "process_all_markdown_files_ga env_ok (state_with doc_plain)"
  have e0: "(state_with doc_plain)\<lparr>stats := no_stats\<rparr> = state_with doc_plain"
    by (simp add: state_with_def)
  have b: "replaced_counted (stats (state_with doc_foo))" "counted (stats (state_with doc_foo)) = 0"
    "successful_replacements (stats (state_with doc_foo)) = 0"
    "failed_replacements (stats (state_with doc_foo)) = 0"
    "skipped_files (stats (state_with doc_foo)) = 0"
    "glob_md env_ok \<noteq> []"
    by (simp_all add: replaced_counted_def counted_def state_with_fields no_stats_def env_ok_fields)
  from statistics_invariant [of env_ok a_md "state_with doc_foo" True "snd ?call" "Inr True"
      "[a_md]" initial_locals "Inr ()" "fst (snd ?run)" "snd (snd ?run)" "()" "state_with doc_foo"]
    statistics_invariant [of env_ok a_md "state_with doc_plain" False "state_with doc_plain"
      "Inr False" "[]" initial_locals "Inr ()" initial_locals "state_with doc_plain" "()"
      "snd ?all"]
  show ?thesis
    unfolding e0 run_foo_ga drive_foo_ga all_plain_ga
    by (simp add: b)
qed

subsection \<open>The rewritten file and its backup\<close>

lemma replace_from_nothing:
  "count_from k s old = 0 \<Longrightarrow> replace_from k s old new = drop k s"
  by (induction k s old new rule: replace_from.induct) (auto split: if_splits)

lemma replace_from_once:
  "old \<noteq> [] \<Longrightarrow> count_from 0 s old = Suc 0 \<Longrightarrow>
   replace_from 0 s old new = replace_first s old new"
proof (induction s)
  case Nil
  then show ?case by simp
next
  case (Cons c s)
  show ?case
  proof (cases "startswith (c # s) old")
    case True
    with Cons.prems have "count_from (length old - 1) s old = 0" by simp
    from replace_from_nothing [OF this] True Cons.prems(1) show ?thesis
      by (cases old) simp_all
  next
    case False
    with Cons show ?thesis by simp
  qed
qed

lemma replace_once:
  "old \<noteq> [] \<Longrightarrow> count s old = 1 \<Longrightarrow> replace s old new = replace_first s old new"
  by (simp add: replace_def count_def replace_from_once)

lemma placeholder_nonempty: "PLACEHOLDER_IMAGE_URL \<noteq> []"
  by (simp add: PLACEHOLDER_IMAGE_URL_def)

lemma rewrite_done:
  assumes c: "files st f = Some content"
      and p: "isin PLACEHOLDER_IMAGE_URL content"
      and t: "title_found sc e content = Inr (Some title)"
      and g: "generate_and_upload_image sc e title MAX_RETRIES BASE_RETRY_DELAY
                (state_at_generation sc st) = (Inr (Some u), st1)"
      and u: "u \<noteq> []"
      and w: "writable e f" "writable e (f @ ''.bak'')"
  shows "fst (replace_image_in_markdown sc e f st) = Inr True
       \<and> files (snd (replace_image_in_markdown sc e f st)) =
           (files st)(f \<mapsto> replace content PLACEHOLDER_IMAGE_URL u, f @ ''.bak'' \<mapsto> content)"
proof -
  from generate_and_upload_image_frame [OF g]
  have "files st1 = files st"
    by (cases sc) (simp_all add: state_at_generation_def count_placeholder_def)
  with assms show ?thesis
    by (cases sc)
       (simp_all add: replace_image_in_markdown_pir_def replace_image_in_markdown_ga_def
          replace_image_in_markdown_try_ga_def title_found_def state_at_generation_def
          write_file_def count_success_def)
qed

lemma doc_two_facts:
  "isin PLACEHOLDER_IMAGE_URL doc_two"
  "lookup_title (extract_front_matter_pir env_ok doc_two) = Inr (Some (YStr ''Foo''))"
  "replace doc_two PLACEHOLDER_IMAGE_URL new_url = front_foo @ new_url @ '' '' @ new_url"
  "replace_first doc_two PLACEHOLDER_IMAGE_URL new_url =
     front_foo @ new_url @ '' '' @ PLACEHOLDER_IMAGE_URL"
  "count doc_two PLACEHOLDER_IMAGE_URL = 2"
  by code_simp+

lemma doc_foo_count: "count doc_foo PLACEHOLDER_IMAGE_URL = 1"
  by code_simp

lemma urls_differ: "new_url \<noteq> PLACEHOLDER_IMAGE_URL"
  by (simp add: new_url_def PLACEHOLDER_IMAGE_URL_def)

text \<open>
  C3, as amended. When a document holds the sentinel URL and a title is found for it,
  generation and upload return a non-empty URL, and the file and its backup can be
  written, \<^verbatim>\<open>replace_image_in_markdown\<close> returns \<^verbatim>\<open>True\<close>; the file then holds the content
  with every occurrence of the sentinel replaced by the new URL
  (\<^verbatim>\<open>content.replace(PLACEHOLDER_IMAGE_URL, new_image_url)\<close>), the backup \<^verbatim>\<open>.bak\<close> holds the
  original content, and no other file has changed. The substitution is exactly one, the
  first match, when the sentinel occurs exactly once.
\<close>

theorem every_placeholder_replaced_with_backup:
  assumes "files st f = Some content"
      and "isin PLACEHOLDER_IMAGE_URL content"
      and "title_found sc e content = Inr (Some title)"
      and "generate_and_upload_image sc e title MAX_RETRIES BASE_RETRY_DELAY
             (state_at_generation sc st) = (Inr (Some u), st1)"
      and "u \<noteq> []"
      and "writable e f" and "writable e (f @ ''.bak'')"
  shows "fst (replace_image_in_markdown sc e f st) = Inr True
       \<and> files (snd (replace_image_in_markdown sc e f st)) =
           (files st)(f \<mapsto> replace content PLACEHOLDER_IMAGE_URL u, f @ ''.bak'' \<mapsto> content)
       \<and> (count content PLACEHOLDER_IMAGE_URL = 1 \<longrightarrow>
            replace content PLACEHOLDER_IMAGE_URL u = replace_first content PLACEHOLDER_IMAGE_URL u)"
  using rewrite_done [OF assms] replace_once [OF placeholder_nonempty, of content u]
  by simp

theorem every_placeholder_replaced_with_backup_witness:
  "fst (replace_image_in_markdown Replacer env_ok a_md (state_with doc_foo)) = Inr True
   \<and> files (snd (replace_image_in_markdown Replacer env_ok a_md (state_with doc_foo))) =
       [a_md \<mapsto> front_foo @ ''See ![img]('' @ new_url @ '')'', a_md @ ''.bak'' \<mapsto> doc_foo]
   \<and> replace_first doc_foo PLACEHOLDER_IMAGE_URL new_url =
       front_foo @ ''See ![img]('' @ new_url @ '')''"
proof -
  have t: "title_found Replacer env_ok doc_foo = Inr (Some (YStr ''Foo''))"
    by (simp add: title_found_def doc_foo_facts)
  have g: "generate_and_upload_image Replacer env_ok (YStr ''Foo'') MAX_RETRIES BASE_RETRY_DELAY
      (state_at_generation Replacer (state_with doc_foo)) =
      (Inr (Some new_url), (state_with doc_foo)\<lparr>gemini_calls := 1, upload_calls := 1\<rparr>)"
    by (simp add: state_at_generation_def generate_ok state_with_fields)
  have f: "files (state_with doc_foo) a_md = Some doc_foo"
    by (simp add: state_with_fields)
  from every_placeholder_replaced_with_backup [OF f doc_foo_facts(1) t g new_url_nonempty]
  show ?thesis
    by (simp add: env_ok_fields doc_foo_count doc_foo_facts state_with_fields)
qed

theorem two_placeholders_both_replaced:
  "isin PLACEHOLDER_IMAGE_URL doc_two
   \<and> lookup_title (extract_front_matter_pir env_ok doc_two) = Inr (Some (YStr ''Foo''))
   \<and> fst (replace_image_in_markdown Replacer env_ok a_md (state_with doc_two)) = Inr True
   \<and> files (snd (replace_image_in_markdown Replacer env_ok a_md (state_with doc_two))) a_md =
       Some (front_foo @ new_url @ '' '' @ new_url)
   \<and> replace_first doc_two PLACEHOLDER_IMAGE_URL new_url =
       front_foo @ new_url @ '' '' @ PLACEHOLDER_IMAGE_URL
   \<and> front_foo @ new_url @ '' '' @ new_url \<noteq> front_foo @ new_url @ '' '' @ PLACEHOLDER_IMAGE_URL"
proof -
  have t: "title_found Replacer env_ok doc_two = Inr (Some (YStr ''Foo''))"
    by (simp add: title_found_def doc_two_facts)
  have g: "generate_and_upload_image Replacer env_ok (YStr ''Foo'') MAX_RETRIES BASE_RETRY_DELAY
      (state_at_generation Replacer (state_with doc_two)) =
      (Inr (Some new_url), (state_with doc_two)\<lparr>gemini_calls := 1, upload_calls := 1\<rparr>)"
    by (simp add: state_at_generation_def generate_ok state_with_fields)
  have f: "files (state_with doc_two) a_md = Some doc_two"
    by (simp add: state_with_fields)
  from rewrite_done [OF f doc_two_facts(1) t g new_url_nonempty]
  show ?thesis
    by (simp add: env_ok_fields doc_two_facts urls_differ)
qed

subsection \<open>Front matter\<close>

lemma startswith_isin: "startswith s l \<Longrightarrow> isin l s"
  by (cases s) (auto elim: startswith.elims)

lemma startswith_length: "startswith s p \<Longrightarrow> length p \<le> length s"
  by (induction s p rule: startswith.induct) auto

lemma lit_none: "\<not> isin l s \<Longrightarrow> rmatch (Lit l # rs) prev s g = None"
  using startswith_isin [of s l] by auto

lemma star_lit_none:
  "\<not> isin l s \<Longrightarrow> rmatch (Star c # Lit l # rs) prev s g = None"
proof (induction s arbitrary: prev)
  case Nil
  from lit_none [OF Nil] show ?case by (simp del: rmatch.simps(5))
next
  case (Cons x s)
  then have "\<not> isin l s" by simp
  from Cons.IH [OF this] lit_none [OF Cons.prems] show ?case
    by (simp del: rmatch.simps(5))
qed

lemma lazy_star_lit_none:
  "\<not> isin l s \<Longrightarrow> rmatch (CapLazy c # Star c' # Lit l # rs) prev s g = None"
proof (induction s arbitrary: prev g)
  case Nil
  from star_lit_none [OF Nil] show ?case by (simp del: rmatch.simps(5,6,7))
next
  case (Cons x s)
  then have "\<not> isin l s" by simp
  from Cons.IH [OF this] star_lit_none [OF Cons.prems] show ?case
    by (simp del: rmatch.simps(5,6,7))
qed

lemma star_lazy_star_lit_none:
  "\<not> isin l s \<Longrightarrow> rmatch (Star c # CapLazy c' # Star c'' # Lit l # rs) prev s g = None"
proof (induction s arbitrary: prev)
  case Nil
  from lazy_star_lit_none [OF Nil] show ?case by (simp del: rmatch.simps(5,10,11))
next
  case (Cons x s)
  then have "\<not> isin l s" by simp
  from Cons.IH [OF this] lazy_star_lit_none [OF Cons.prems] show ?case
    by (simp del: rmatch.simps(5,10,11))
qed

lemma search_from_bol: "search_from (Bol_string # rs) (Some p) s = None"
  by (induction s arbitrary: p) simp_all

lemma search_none_unopened:
  assumes "\<not> startswith content ''---''"
  shows "search front_matter_pattern content = None"
  using assms
  by (cases content) (auto simp: search_def front_matter_pattern_def search_from_bol)

lemma search_none_unclosed:
  assumes "\<not> isin ''---'' (drop 3 content)"
  shows "search front_matter_pattern content = None"
proof (cases "startswith content ''---''")
  case False
  then show ?thesis by (rule search_none_unopened)
next
  case True
  from assms have d: "\<not> isin ''---'' (drop (length ''---'') content)"
    by (simp add: numeral_3_eq_3)
  have "rmatch (Lit ''---'' # [Star Space, CapLazy AnyChar, Star Space, Lit ''---'', Star Space])
          None content [] = None"
    using True
      star_lazy_star_lit_none [OF d, of Space AnyChar Space "[Star Space]" "Some CHR ''-''" "[]"]
    by (simp del: rmatch.simps(6,7))
  then show ?thesis
    by (cases content) (simp_all add: search_def front_matter_pattern_def search_from_bol)
qed

lemma find_at_none: "(find_at p s i = - 1) = (\<not> isin p s)"
  by (induction s arbitrary: i) auto

lemma find_opening:
  assumes "startswith content p"
  shows "find content p 0 = 0"
  using assms by (cases content) (auto simp: find_def elim: startswith.elims)

lemma find_closing:
  assumes "startswith content ''---''"
  shows "(find content ''---'' 3 = - 1) = (\<not> isin ''---'' (drop 3 content))"
  using startswith_length [OF assms] by (simp add: find_def find_at_none)

lemma extract_ga_opened:
  assumes "startswith content ''---''"
  shows "extract_front_matter_ga e content =
           (if \<not> isin ''---'' (drop 3 content) then None
            else case yaml_safe_load e (interior_ga content) of
                   Inl err \<Rightarrow> None
                 | Inr v \<Rightarrow>
                     if truthy v \<and> is_dict v
                     then Some (v, slice content 0 (find content ''---'' 3 + 3)) else None)"
  using assms find_closing [OF assms]
  by (simp add: extract_front_matter_ga_def find_opening interior_ga_def Let_def)


lemma extract_ga_unclosed:
  assumes "\<not> isin ''---'' (drop 3 content)"
  shows "extract_front_matter_ga e content = None"
proof (cases "startswith content ''---''")
  case True
  from extract_ga_opened [OF True] assms show ?thesis by simp
next
  case False
  then show ?thesis by (simp add: extract_front_matter_ga_def)
qed

lemma extract_ga_cases:
  "extract_front_matter_ga e content =
     (if \<not> startswith content ''---'' \<or> \<not> isin ''---'' (drop 3 content) then None
      else case yaml_safe_load e (interior_ga content) of
             Inl err \<Rightarrow> None
           | Inr v \<Rightarrow>
               if truthy v \<and> is_dict v
               then Some (v, slice content 0 (find content ''---'' 3 + 3)) else None)"
proof (cases "startswith content ''---''")
  case True
  from extract_ga_opened [OF True] True show ?thesis by simp
next
  case False
  then show ?thesis by (simp add: extract_front_matter_ga_def)
qed

lemma doc_unclosed_facts:
  "\<not> isin ''---'' (drop 3 doc_unclosed)"
  "isin PLACEHOLDER_IMAGE_URL doc_unclosed"
  "alternative_title doc_unclosed = Some ''Foo''"
  "replace doc_unclosed PLACEHOLDER_IMAGE_URL new_url =
     ''---'' @ [newline] @ ''title: Foo'' @ [newline] @ ''![img]('' @ new_url @ '')''"
  by code_simp+

lemma doc_broken_facts:
  "search front_matter_pattern doc_broken = Some (''title: [Foo'', doc_broken)"
  "yaml_safe_load env_ok ''title: [Foo'' = Inl ''could not parse''"
  "interior_ga doc_broken = ''title: [Foo''"
  by code_simp+

lemma doc_author_facts:
  "startswith doc_author ''---''"
  "isin ''---'' (drop 3 doc_author)"
  "interior_ga doc_author = ''author: Bob''"
  "slice doc_author 0 (find doc_author ''---'' 3 + 3) =
     ''---'' @ [newline] @ ''author: Bob'' @ [newline] @ ''---''"
  "yaml_safe_load env_ok ''author: Bob'' = Inr (YDict [(YStr ''author'', YStr ''Bob'')])"
  "isin PLACEHOLDER_IMAGE_URL doc_author"
  "lookup_title (extract_front_matter_pir env_ok doc_author) = Inr None"
  "lookup_title (extract_front_matter_ga env_ok doc_author) = Inr None"
  "alternative_title doc_author = None"
  by code_simp+

text \<open>
  C5, as amended. \<^verbatim>\<open>extract_front_matter\<close> returns \<^verbatim>\<open>(None, None)\<close> when the content does not
  start with the opening marker, when no closing marker follows it, and when the parser
  raises a \<^verbatim>\<open>YAMLError\<close> on the text between them; \<^verbatim>\<open>generate_articles.py\<close> also when the
  parsed value is empty or not a dictionary. Any other parsed value is returned with the
  block, a dictionary without a title included: the title is looked up by the caller.
\<close>

theorem front_matter_null_results:
  "(\<not> startswith content ''---'' \<longrightarrow>
      extract_front_matter_pir e content = None \<and> extract_front_matter_ga e content = None)
   \<and> (\<not> isin ''---'' (drop 3 content) \<longrightarrow>
      extract_front_matter_pir e content = None \<and> extract_front_matter_ga e content = None)
   \<and> (search front_matter_pattern content = Some (g, block) \<and> yaml_safe_load e g = Inl err \<longrightarrow>
      extract_front_matter_pir e content = None)
   \<and> (yaml_safe_load e (interior_ga content) = Inl err \<longrightarrow>
      extract_front_matter_ga e content = None)
   \<and> (yaml_safe_load e (interior_ga content) = Inr v \<and> \<not> (truthy v \<and> is_dict v) \<longrightarrow>
      extract_front_matter_ga e content = None)
   \<and> (search front_matter_pattern content = Some (g, block) \<and> yaml_safe_load e g = Inr v \<longrightarrow>
      extract_front_matter_pir e content = Some (v, block))
   \<and> (startswith content ''---'' \<and> isin ''---'' (drop 3 content)
      \<and> yaml_safe_load e (interior_ga content) = Inr v \<and> truthy v \<and> is_dict v \<longrightarrow>
      extract_front_matter_ga e content = Some (v, slice content 0 (find content ''---'' 3 + 3)))"
proof -
  have a: "extract_front_matter_pir e content = None"
    if "search front_matter_pattern content = None"
    using that by (simp add: extract_front_matter_pir_def)
  have b: "extract_front_matter_ga e content = None" if "\<not> startswith content ''---''"
    using that by (simp add: extract_front_matter_ga_def)
  show ?thesis
    using a [OF search_none_unopened] a [OF search_none_unclosed] b
      extract_ga_unclosed [of content e] extract_ga_cases [of e content]
    by (auto simp: extract_front_matter_pir_def)
qed

theorem front_matter_null_results_witness:
  "extract_front_matter_pir env_ok doc_unclosed = None
   \<and> extract_front_matter_ga env_ok doc_unclosed = None
   \<and> extract_front_matter_pir env_ok doc_broken = None
   \<and> extract_front_matter_ga env_ok doc_broken = None
   \<and> extract_front_matter_ga env_ok doc_author =
       Some (YDict [(YStr ''author'', YStr ''Bob'')],
             ''---'' @ [newline] @ ''author: Bob'' @ [newline] @ ''---'')"
  using
    front_matter_null_results [of doc_unclosed env_ok "[]" "[]" "[]" YNull]
    front_matter_null_results [of doc_broken env_ok "''title: [Foo''" doc_broken
      "''could not parse''" YNull]
    front_matter_null_results [of doc_author env_ok "[]" "[]" "[]"
      "YDict [(YStr ''author'', YStr ''Bob'')]"]
  by (simp add: doc_unclosed_facts doc_broken_facts doc_author_facts)

theorem front_matter_without_title_returned:
  "title_in (YDict [(YStr ''author'', YStr ''Bob'')]) = Inr False
   \<and> extract_front_matter_pir env_ok doc_author =
       Some (YDict [(YStr ''author'', YStr ''Bob'')],
             ''---'' @ [newline] @ ''author: Bob'' @ [newline] @ ''---'' @ [newline])
   \<and> extract_front_matter_ga env_ok doc_author =
       Some (YDict [(YStr ''author'', YStr ''Bob'')],
             ''---'' @ [newline] @ ''author: Bob'' @ [newline] @ ''---'')"
  by code_simp

subsection \<open>A document without a title\<close>

lemma doc_unclosed_title: "title_or_alternative env_ok doc_unclosed = Inr (Some (YStr ''Foo''))"
  by code_simp

text \<open>
  C6, as amended. For a document that holds the sentinel URL and whose front matter gives
  no title (none extracted, an empty value, or a dictionary without the key),
  \<^verbatim>\<open>placeholder_image_replacer.py\<close> skips the file: it returns \<^verbatim>\<open>False\<close> and changes
  nothing, as for a file without the placeholder. \<^verbatim>\<open>generate_articles.py\<close> first searches
  the content for a line \<^verbatim>\<open>title: ...\<close>; a title found there is used and the image is
  generated and written as for any other title; only when that search finds nothing
  does it return \<^verbatim>\<open>False\<close>, and it counts the file in \<^verbatim>\<open>failed_replacements\<close> (and
  \<^verbatim>\<open>files_with_placeholders\<close>), not in \<^verbatim>\<open>skipped_files\<close>.
\<close>

theorem missing_title_skip_or_recovery:
  assumes "files st f = Some content" and "isin PLACEHOLDER_IMAGE_URL content"
  shows "(lookup_title (extract_front_matter_pir e content) = Inr None \<longrightarrow>
            replace_image_in_markdown Replacer e f st = (Inr False, st))
       \<and> (lookup_title (extract_front_matter_ga e content) = Inr None
            \<and> alternative_title content = None \<longrightarrow>
            replace_image_in_markdown Articles e f st =
              (Inr False, count_failed (count_placeholder st)))
       \<and> (lookup_title (extract_front_matter_ga e content) = Inr None
            \<and> alternative_title content = Some t \<longrightarrow>
            title_found Articles e content = Inr (Some (YStr t))
            \<and> (generate_and_upload_image Articles e (YStr t) MAX_RETRIES BASE_RETRY_DELAY
                  (count_placeholder st) = (Inr (Some u), st1)
                \<and> u \<noteq> [] \<and> writable e f \<and> writable e (f @ ''.bak'') \<longrightarrow>
                fst (replace_image_in_markdown Articles e f st) = Inr True
                \<and> files (snd (replace_image_in_markdown Articles e f st)) f =
                    Some (replace content PLACEHOLDER_IMAGE_URL u)))"
proof -
  have a: "replace_image_in_markdown Replacer e f st = (Inr False, st)"
    if "lookup_title (extract_front_matter_pir e content) = Inr None"
    using assms that by (simp add: replace_image_in_markdown_pir_def)
  have b: "replace_image_in_markdown Articles e f st =
      (Inr False, count_failed (count_placeholder st))"
    if "lookup_title (extract_front_matter_ga e content) = Inr None"
      and "alternative_title content = None"
    using assms that
    by (simp add: replace_image_in_markdown_ga_def replace_image_in_markdown_try_ga_def
        title_or_alternative_def)
  have c: "title_found Articles e content = Inr (Some (YStr t))"
    if "lookup_title (extract_front_matter_ga e content) = Inr None"
      and "alternative_title content = Some t"
    using that by (simp add: title_found_def title_or_alternative_def)
  have d: "fst (replace_image_in_markdown Articles e f st) = Inr True
      \<and> files (snd (replace_image_in_markdown Articles e f st)) f =
          Some (replace content PLACEHOLDER_IMAGE_URL u)"
    if "title_found Articles e content = Inr (Some (YStr t))"
      and "generate_and_upload_image Articles e (YStr t) MAX_RETRIES BASE_RETRY_DELAY
             (count_placeholder st) = (Inr (Some u), st1)"
      and "u \<noteq> []" and "writable e f" and "writable e (f @ ''.bak'')"
    using rewrite_done [OF assms that(1), of u st1] that(2-)
    by (simp add: state_at_generation_def)
  from a b c d show ?thesis by blast
qed

theorem missing_title_skip_or_recovery_witness:
  "replace_image_in_markdown Replacer env_ok a_md (state_with doc_author) =
     (Inr False, state_with doc_author)
   \<and> replace_image_in_markdown Articles env_ok a_md (state_with doc_author) =
     (Inr False, count_failed (count_placeholder (state_with doc_author)))
   \<and> title_found Articles env_ok doc_unclosed = Inr (Some (YStr ''Foo''))
   \<and> fst (replace_image_in_markdown Articles env_ok a_md (state_with doc_unclosed)) = Inr True"
proof -
  let ?st = "count_placeholder (state_with doc_unclosed)"
  have f: "files (state_with doc_author) a_md = Some doc_author"
    "files (state_with doc_unclosed) a_md = Some doc_unclosed"
    by (simp_all add: state_with_fields)
  have n: "lookup_title (extract_front_matter_ga env_ok doc_unclosed) = Inr None"
    by (simp add: extract_ga_unclosed [OF doc_unclosed_facts(1)] lookup_title_def)
  have g: "generate_and_upload_image Articles env_ok (YStr ''Foo'') MAX_RETRIES BASE_RETRY_DELAY ?st =
      (Inr (Some new_url),
       ?st\<lparr>gemini_calls := Suc (gemini_calls ?st), upload_calls := Suc (upload_calls ?st)\<rparr>)"
    by (rule generate_ok)
  from missing_title_skip_or_recovery [OF f(1) doc_author_facts(6), of env_ok "[]" "[]"
      "state_with doc_author"]
    missing_title_skip_or_recovery [OF f(2) doc_unclosed_facts(2), of env_ok "''Foo''" new_url
      "?st\<lparr>gemini_calls := Suc (gemini_calls ?st), upload_calls := Suc (upload_calls ?st)\<rparr>"]
  show ?thesis
    by (simp only: doc_author_facts doc_unclosed_facts n g new_url_nonempty env_ok_fields
        simp_thms)
qed

theorem missing_title_recovered_by_second_search:
  "isin PLACEHOLDER_IMAGE_URL doc_unclosed
   \<and> extract_front_matter_ga env_ok doc_unclosed = None
   \<and> alternative_title doc_unclosed = Some ''Foo''
   \<and> fst (replace_image_in_markdown Articles env_ok a_md (state_with doc_unclosed)) = Inr True
   \<and> files (snd (replace_image_in_markdown Articles env_ok a_md (state_with doc_unclosed))) a_md =
       Some (''---'' @ [newline] @ ''title: Foo'' @ [newline] @ ''![img]('' @ new_url @ '')'')"
proof -
  have t: "title_found Articles env_ok doc_unclosed = Inr (Some (YStr ''Foo''))"
    by (simp add: title_found_def doc_unclosed_title)
  have g: "generate_and_upload_image Articles env_ok (YStr ''Foo'') MAX_RETRIES BASE_RETRY_DELAY
      (state_at_generation Articles (state_with doc_unclosed)) =
      (Inr (Some new_url), (state_at_generation Articles (state_with doc_unclosed))
         \<lparr>gemini_calls := Suc (gemini_calls (state_at_generation Articles (state_with doc_unclosed))),
          upload_calls := Suc (upload_calls (state_at_generation Articles (state_with doc_unclosed)))\<rparr>)"
    by (rule generate_ok)
  have f: "files (state_with doc_unclosed) a_md = Some doc_unclosed"
    by (simp add: state_with_fields)
  from rewrite_done [OF f doc_unclosed_facts(2) t g new_url_nonempty]
    extract_ga_unclosed [OF doc_unclosed_facts(1), of env_ok]
  show ?thesis
    by (simp add: env_ok_fields doc_unclosed_facts)
qed

subsection \<open>The loop body of the batch driver runs to its end\<close>

lemma process_file_completes:
  assumes ni: "\<forall>n. \<not> sleep_interrupted e n"
      and d: "0 \<le> current_delay l \<or> q = Inr True"
      and q: "replace_image_in_markdown sc e md_file st = (q, st0)"
      and k: "q \<noteq> Inl KeyboardInterrupt"
  shows "fst (process_file sc e md_file l st) = Inr ()"
proof -
  have sl: "sleep e d s = (Inr (), s\<lparr>slept := slept s @ [d]\<rparr>)" if "0 \<le> d" for d s
    using that ni by (simp add: sleep_def)
  have lb: "fst (long_break e l1 s) = Inr ()" if "0 \<le> current_delay l1 \<or> consecutive_failures l1 = 0"
    for l1 s
    using that by (auto simp: long_break_def sl max_consecutive_failures_def)
  show ?thesis
  proof (cases q)
    case (Inl x)
    with k obtain m where m: "q = Inl (PyException m)" by (cases x) auto
    with d have d0: "0 \<le> current_delay l" by simp
    let ?l1 = "(note_failed sc md_file l)\<lparr>consecutive_failures := consecutive_failures l + 1\<rparr>"
    let ?l2 = "if rate_limit_signature m
               then ?l1\<lparr>current_delay := min (current_delay ?l1 * 2) max_delay\<rparr> else ?l1"
    have d2: "0 \<le> current_delay ?l2"
      using d0 by (simp add: max_delay_def)
    have "process_file_except sc e md_file m l st0 =
        (Inr (), ?l2, st0\<lparr>slept := slept st0 @ [current_delay ?l2]\<rparr>)"
      unfolding process_file_except_def Let_def sl [OF d2] by simp
    with q m lb [of ?l2] d2 show ?thesis
      by (simp add: process_file_def process_file_try_def)
  next
    case (Inr b)
    show ?thesis
    proof (cases b)
      case True
      have "0 \<le> SUCCESS_DELAY" by (simp add: SUCCESS_DELAY_def)
      from sl [OF this] q Inr True show ?thesis
        by (simp add: process_file_def process_file_try_def lb)
    next
      case False
      with d Inr have d0: "0 \<le> current_delay l" by simp
      from sl [OF d0] q Inr False d0 show ?thesis
        by (simp add: process_file_def process_file_try_def lb)
    qed
  qed
qed

lemma completed_run:
  "fst p = Inr () \<Longrightarrow> p = (Inr (), fst (snd p), snd (snd p))"
  by (cases p) auto

lemma md_429_facts:
  "rate_limit_signature (''[Errno 2] No such file or directory: '' @ quoted md_429)"
  "basename md_429 = ''429.md''"
  "md_429 \<noteq> a_md"
  by code_simp+

lemmas md_429_signature = md_429_facts(1) [simplified]

lemma run_429:
  "replace_image_in_markdown Replacer env_ok md_429 (state_with c) =
     (Inl (PyException (''[Errno 2] No such file or directory: '' @ quoted md_429)), state_with c)"
  by (simp add: replace_image_in_markdown_pir_def state_with_fields md_429_facts)

lemma run_foo:
  "replace_image_in_markdown Replacer env_ok a_md (state_with doc_foo) =
     (Inr True, snd (replace_image_in_markdown_pir env_ok a_md (state_with doc_foo)))"
  by (simp add: run_foo_pir)

lemma run_plain:
  "replace_image_in_markdown Replacer env_ok a_md (state_with doc_plain) =
     (Inr False, state_with doc_plain)"
  "replace_image_in_markdown Articles env_ok a_md (state_with doc_plain) =
     (Inr False, count_skipped (state_with doc_plain))"
  by (simp_all add: run_plain_pir run_plain_ga)

lemma env_ok_sleeps: "\<forall>n. \<not> sleep_interrupted env_ok n"
  by (simp add: env_ok_fields)


subsection \<open>The claims about the batch driver\<close>

text \<open>
  C8. After every successful replacement the driver sleeps \<^verbatim>\<open>SUCCESS_DELAY\<close> (60 seconds,
  whatever \<^verbatim>\<open>current_delay\<close> is), sets \<^verbatim>\<open>current_delay\<close> back to \<^verbatim>\<open>base_delay\<close> and
  \<^verbatim>\<open>consecutive_failures\<close> to 0; \<^verbatim>\<open>current_delay\<close> is doubled, up to \<^verbatim>\<open>max_delay\<close>, only
  after an exception of \<^verbatim>\<open>replace_image_in_markdown\<close> whose message has the rate-limit
  signature, and is left as it is after \<^verbatim>\<open>False\<close> or any other exception. The pass of
  the loop body runs to its end whenever no \<^verbatim>\<open>time.sleep\<close> is interrupted, the file did
  not end in a \<^verbatim>\<open>KeyboardInterrupt\<close>, and \<^verbatim>\<open>current_delay\<close> is not negative (which a
  success does not need). In both scripts.
\<close>

theorem success_delay_and_reset:
  assumes "replace_image_in_markdown sc e md_file st = (q, st0)"
  shows "(process_file sc e md_file l st = (Inr u, l', st') \<longrightarrow>
            (q = Inr True \<longrightarrow>
               slept st' = slept st0 @ [SUCCESS_DELAY] \<and> current_delay l' = base_delay
               \<and> consecutive_failures l' = 0)
          \<and> (q = Inr False \<longrightarrow> current_delay l' = current_delay l)
          \<and> (\<forall>m. q = Inl (PyException m) \<longrightarrow>
                current_delay l' = (if rate_limit_signature m
                                    then min (current_delay l * 2) max_delay else current_delay l)))
       \<and> ((\<forall>n. \<not> sleep_interrupted e n) \<and> (0 \<le> current_delay l \<or> q = Inr True)
            \<and> q \<noteq> Inl KeyboardInterrupt \<longrightarrow>
            fst (process_file sc e md_file l st) = Inr ())"
proof -
  have a: "(q = Inr True \<longrightarrow>
               slept st' = slept st0 @ [SUCCESS_DELAY] \<and> current_delay l' = base_delay
               \<and> consecutive_failures l' = 0)
          \<and> (q = Inr False \<longrightarrow> current_delay l' = current_delay l)
          \<and> (\<forall>m. q = Inl (PyException m) \<longrightarrow>
                current_delay l' = (if rate_limit_signature m
                                    then min (current_delay l * 2) max_delay else current_delay l))"
    if p: "process_file sc e md_file l st = (Inr u, l', st')"
  proof (cases "q = Inr True")
    case True
    with process_file_succeeded [OF assms [unfolded True] p] show ?thesis
      by simp
  next
    case False
    from process_file_failed [OF assms p False] False show ?thesis
      by (auto simp: delay_after_failure_def split: if_splits)
  qed
  have b: "fst (process_file sc e md_file l st) = Inr ()"
    if "\<forall>n. \<not> sleep_interrupted e n" and "0 \<le> current_delay l \<or> q = Inr True"
      and "q \<noteq> Inl KeyboardInterrupt"
    using process_file_completes [OF that(1,2) assms that(3)] .
  from a b show ?thesis by blast
qed

theorem success_delay_and_reset_witness:
  "fst (process_file Replacer env_ok a_md (initial_locals\<lparr>current_delay := 24\<rparr>)
          (state_with doc_foo)) = Inr ()
   \<and> slept (snd (snd (process_file Replacer env_ok a_md (initial_locals\<lparr>current_delay := 24\<rparr>)
          (state_with doc_foo)))) = [60]
   \<and> current_delay (fst (snd (process_file Replacer env_ok a_md
          (initial_locals\<lparr>current_delay := 24\<rparr>) (state_with doc_foo)))) = 3
   \<and> current_delay (fst (snd (process_file Articles env_ok a_md
          (initial_locals\<lparr>current_delay := 24\<rparr>) (state_with doc_plain)))) = 24
   \<and> fst (process_file Replacer env_ok md_429 initial_locals (state_with doc_foo)) = Inr ()
   \<and> current_delay (fst (snd (process_file Replacer env_ok md_429 initial_locals
          (state_with doc_foo)))) = 6
   \<and> current_delay (fst (snd (process_file Replacer env_ok md_429
          (initial_locals\<lparr>current_delay := 48\<rparr>) (state_with doc_foo)))) = 60"
proof -
  let ?l = "initial_locals\<lparr>current_delay := 24\<rparr>"
  let ?h = "initial_locals\<lparr>current_delay := 48\<rparr>"
  let ?a = "process_file Replacer env_ok a_md ?l (state_with doc_foo)"
  let ?b = "process_file Articles env_ok a_md ?l (state_with doc_plain)"
  let ?c = "process_file Replacer env_ok md_429 initial_locals (state_with doc_foo)"
  let ?d = "process_file Replacer env_ok md_429 ?h (state_with doc_foo)"
  have l: "current_delay ?l = 24" "current_delay ?h = 48" "current_delay initial_locals = 3"
    by (simp_all add: initial_locals_def base_delay_def)
  note t = success_delay_and_reset
  from t [OF run_foo, where l = "?l" and u = "()" and l' = "fst (snd ?a)" and st' = "snd (snd ?a)"] env_ok_sleeps
  have a: "fst ?a = Inr ()" "slept (snd (snd ?a)) = [60]" "current_delay (fst (snd ?a)) = 3"
    by (auto dest!: completed_run simp: run_foo_pir SUCCESS_DELAY_def base_delay_def)
  from t [OF run_plain(2), where l = "?l" and u = "()" and l' = "fst (snd ?b)" and st' = "snd (snd ?b)"] env_ok_sleeps l
  have b: "current_delay (fst (snd ?b)) = 24"
    by (auto dest!: completed_run)
  from t [OF run_429 [of doc_foo], where l = "initial_locals" and u = "()" and l' = "fst (snd ?c)" and st' = "snd (snd ?c)"] env_ok_sleeps l
  have c: "fst ?c = Inr ()" "current_delay (fst (snd ?c)) = 6"
    by (auto dest!: completed_run simp: md_429_signature max_delay_def)
  from t [OF run_429 [of doc_foo], where l = "?h" and u = "()" and l' = "fst (snd ?d)" and st' = "snd (snd ?d)"] env_ok_sleeps l
  have d: "current_delay (fst (snd ?d)) = 60"
    by (auto dest!: completed_run simp: md_429_signature max_delay_def)
  from a b c d show ?thesis by simp
qed

text \<open>
  C7. Whenever a failed file brings \<^verbatim>\<open>consecutive_failures\<close> to the threshold of 3, the
  driver sleeps \<^verbatim>\<open>min(current_delay * 3, 120)\<close> right after the usual delay and resets
  \<^verbatim>\<open>consecutive_failures\<close> to 0, whether the file returned \<^verbatim>\<open>False\<close> or raised; so the
  counter is below the threshold after every completed pass of the loop body. The pass
  runs to its end whenever no \<^verbatim>\<open>time.sleep\<close> is interrupted, the file did not end in a
  \<^verbatim>\<open>KeyboardInterrupt\<close>, and \<^verbatim>\<open>current_delay\<close> is not negative.
\<close>

theorem long_break_after_three_failures:
  assumes "replace_image_in_markdown sc e md_file st = (q, st0)"
  shows "(process_file sc e md_file l st = (Inr u, l', st') \<longrightarrow>
            (q \<noteq> Inr True \<and> max_consecutive_failures \<le> consecutive_failures l + 1 \<longrightarrow>
               consecutive_failures l' = 0
               \<and> slept st' = slept st0 @ [current_delay l', min (current_delay l' * 3) 120])
          \<and> (consecutive_failures l < max_consecutive_failures \<longrightarrow>
               consecutive_failures l' < max_consecutive_failures))
       \<and> ((\<forall>n. \<not> sleep_interrupted e n) \<and> (0 \<le> current_delay l \<or> q = Inr True)
            \<and> q \<noteq> Inl KeyboardInterrupt \<longrightarrow>
            fst (process_file sc e md_file l st) = Inr ())"
proof -
  have a: "(q \<noteq> Inr True \<and> max_consecutive_failures \<le> consecutive_failures l + 1 \<longrightarrow>
               consecutive_failures l' = 0
               \<and> slept st' = slept st0 @ [current_delay l', min (current_delay l' * 3) 120])
          \<and> (consecutive_failures l < max_consecutive_failures \<longrightarrow>
               consecutive_failures l' < max_consecutive_failures)"
    if p: "process_file sc e md_file l st = (Inr u, l', st')"
  proof (cases "q = Inr True")
    case True
    with process_file_succeeded [OF assms [unfolded True] p] show ?thesis
      by (simp add: max_consecutive_failures_def)
  next
    case False
    from process_file_failed [OF assms p False] False show ?thesis
      by (auto simp: max_consecutive_failures_def split: if_splits)
  qed
  have b: "fst (process_file sc e md_file l st) = Inr ()"
    if "\<forall>n. \<not> sleep_interrupted e n" and "0 \<le> current_delay l \<or> q = Inr True"
      and "q \<noteq> Inl KeyboardInterrupt"
    using process_file_completes [OF that(1,2) assms that(3)] .
  from a b show ?thesis by blast
qed

theorem long_break_after_three_failures_witness:
  "fst (process_file Replacer env_ok md_429 (initial_locals\<lparr>consecutive_failures := 2\<rparr>)
          (state_with doc_foo)) = Inr ()
   \<and> consecutive_failures (fst (snd (process_file Replacer env_ok md_429
          (initial_locals\<lparr>consecutive_failures := 2\<rparr>) (state_with doc_foo)))) = 0
   \<and> slept (snd (snd (process_file Replacer env_ok md_429
          (initial_locals\<lparr>consecutive_failures := 2\<rparr>) (state_with doc_foo)))) = [6, 18]
   \<and> consecutive_failures (fst (snd (process_file Articles env_ok a_md
          (initial_locals\<lparr>consecutive_failures := 2\<rparr>) (state_with doc_plain)))) = 0
   \<and> slept (snd (snd (process_file Articles env_ok a_md
          (initial_locals\<lparr>consecutive_failures := 2\<rparr>) (state_with doc_plain)))) = [3, 9]"
proof -
  let ?l = "initial_locals\<lparr>consecutive_failures := 2\<rparr>"
  let ?c = "process_file Replacer env_ok md_429 ?l (state_with doc_foo)"
  let ?b = "process_file Articles env_ok a_md ?l (state_with doc_plain)"
  have l: "current_delay ?l = 3" "consecutive_failures ?l = 2"
    by (simp_all add: initial_locals_def base_delay_def)
  note t = long_break_after_three_failures
  have c0: "fst ?c = Inr ()"
    using t [OF run_429 [of doc_foo], where l = "?l" and u = "()" and l' = "fst (snd ?c)" and st' = "snd (snd ?c)"] env_ok_sleeps l by simp
  have b0: "fst ?b = Inr ()"
    using t [OF run_plain(2), where l = "?l" and u = "()" and l' = "fst (snd ?b)" and st' = "snd (snd ?b)"] env_ok_sleeps l by simp
  have cd: "current_delay (fst (snd ?c)) = 6"
    using process_file_failed [OF run_429 [of doc_foo] completed_run [OF c0]] l
    by (simp add: delay_after_failure_def md_429_signature max_delay_def max_consecutive_failures_def)
  have bd: "current_delay (fst (snd ?b)) = 3"
    using process_file_failed [OF run_plain(2) completed_run [OF b0]] l
    by (simp add: delay_after_failure_def max_consecutive_failures_def)
  from t [OF run_429 [of doc_foo], where l = "?l" and u = "()" and l' = "fst (snd ?c)" and st' = "snd (snd ?c)"] completed_run [OF c0] l cd
  have c: "consecutive_failures (fst (snd ?c)) = 0" "slept (snd (snd ?c)) = [6, 18]"
    by (simp_all add: max_consecutive_failures_def state_with_fields)
  from t [OF run_plain(2), where l = "?l" and u = "()" and l' = "fst (snd ?b)" and st' = "snd (snd ?b)"] completed_run [OF b0] l bd
  have b: "consecutive_failures (fst (snd ?b)) = 0" "slept (snd (snd ?b)) = [3, 9]"
    by (simp_all add: max_consecutive_failures_def state_with_fields count_skipped_def)
  from c0 b c show ?thesis by simp
qed


subsection \<open>Files without the placeholder, in the driver\<close>

text \<open>
  C4, as amended. A file without the sentinel URL is left as it is and
  \<^verbatim>\<open>replace_image_in_markdown\<close> returns \<^verbatim>\<open>False\<close>; \<^verbatim>\<open>generate_articles.py\<close> counts it in
  \<^verbatim>\<open>skipped_files\<close> and in no other counter. The batch driver of either script treats that
  \<^verbatim>\<open>False\<close> like any failure: it counts a consecutive failure, leaves \<^verbatim>\<open>current_delay\<close> as
  it is and sleeps \<^verbatim>\<open>current_delay\<close> (and then \<^verbatim>\<open>min(current_delay * 3, 120)\<close> when the
  counter has reached 3), and \<^verbatim>\<open>placeholder_image_replacer.py\<close> appends the file to
  \<^verbatim>\<open>failed_files\<close>; it has no record of skipped files. The pass of the loop body runs to
  its end whenever no \<^verbatim>\<open>time.sleep\<close> is interrupted and \<^verbatim>\<open>current_delay\<close> is not negative.
\<close>

theorem no_placeholder_unchanged_and_counted:
  assumes "files st md_file = Some content" and "\<not> isin PLACEHOLDER_IMAGE_URL content"
  shows "replace_image_in_markdown sc e md_file st =
           (Inr False, if sc = Articles then count_skipped st else st)
       \<and> files (snd (replace_image_in_markdown sc e md_file st)) = files st
       \<and> (process_file sc e md_file l st = (Inr u, l', st') \<longrightarrow>
            files st' = files st
            \<and> failed_files l' = failed_files l @ (if sc = Replacer then [basename md_file] else [])
            \<and> success_count l' = success_count l
            \<and> consecutive_failures l' =
                (if max_consecutive_failures \<le> consecutive_failures l + 1 then 0
                 else consecutive_failures l + 1)
            \<and> current_delay l' = current_delay l
            \<and> slept st' = slept st @
                (if max_consecutive_failures \<le> consecutive_failures l + 1
                 then [current_delay l, min (current_delay l * 3) 120] else [current_delay l]))
       \<and> ((\<forall>n. \<not> sleep_interrupted e n) \<and> 0 \<le> current_delay l \<longrightarrow>
            fst (process_file sc e md_file l st) = Inr ())"
proof -
  note run = run_without_placeholder [OF assms, of sc e]
  have a: "files st' = files st
       \<and> failed_files l' = failed_files l @ (if sc = Replacer then [basename md_file] else [])
       \<and> success_count l' = success_count l
       \<and> consecutive_failures l' =
           (if max_consecutive_failures \<le> consecutive_failures l + 1 then 0
            else consecutive_failures l + 1)
       \<and> current_delay l' = current_delay l
       \<and> slept st' = slept st @
           (if max_consecutive_failures \<le> consecutive_failures l + 1
            then [current_delay l, min (current_delay l * 3) 120] else [current_delay l])"
    if p: "process_file sc e md_file l st = (Inr u, l', st')"
    using process_file_failed [OF run p]
    by (auto simp: note_failed_def count_skipped_def delay_after_failure_def split: if_splits)
  have b: "fst (process_file sc e md_file l st) = Inr ()"
    if "\<forall>n. \<not> sleep_interrupted e n" and "0 \<le> current_delay l"
    using process_file_completes [OF that(1) _ run] that(2) by simp
  from a b run show ?thesis
    by (simp add: count_skipped_def)
qed

theorem no_placeholder_unchanged_and_counted_witness:
  "replace_image_in_markdown Articles env_ok a_md (state_with doc_plain) =
     (Inr False, count_skipped (state_with doc_plain))
   \<and> files (snd (replace_image_in_markdown Articles env_ok a_md (state_with doc_plain))) =
       [a_md \<mapsto> doc_plain]
   \<and> fst (process_file Articles env_ok a_md initial_locals (state_with doc_plain)) = Inr ()
   \<and> slept (snd (snd (process_file Articles env_ok a_md initial_locals (state_with doc_plain)))) =
       [3]
   \<and> consecutive_failures (fst (snd (process_file Articles env_ok a_md initial_locals
        (state_with doc_plain)))) = 1
   \<and> fst (process_file Replacer env_ok a_md initial_locals (state_with doc_plain)) = Inr ()
   \<and> slept (snd (snd (process_file Replacer env_ok a_md initial_locals (state_with doc_plain)))) =
       [3]
   \<and> failed_files (fst (snd (process_file Replacer env_ok a_md initial_locals
        (state_with doc_plain)))) = [''a.md'']"
proof -
  let ?a = "process_file Articles env_ok a_md initial_locals (state_with doc_plain)"
  let ?r = "process_file Replacer env_ok a_md initial_locals (state_with doc_plain)"
  have f: "files (state_with doc_plain) a_md = Some doc_plain"
    by (simp add: state_with_fields)
  have l: "current_delay initial_locals = 3" "consecutive_failures initial_locals = 0"
    "failed_files initial_locals = []"
    by (simp_all add: initial_locals_def base_delay_def)
  note t = no_placeholder_unchanged_and_counted [OF f doc_plain_facts]
  from t [where sc = Articles and e = env_ok and l = initial_locals and u = "()"
      and l' = "fst (snd ?a)" and st' = "snd (snd ?a)"] env_ok_sleeps l
  have a: "replace_image_in_markdown Articles env_ok a_md (state_with doc_plain) =
      (Inr False, count_skipped (state_with doc_plain))"
    "files (snd (replace_image_in_markdown Articles env_ok a_md (state_with doc_plain))) =
      [a_md \<mapsto> doc_plain]"
    "fst ?a = Inr ()" "slept (snd (snd ?a)) = [3]" "consecutive_failures (fst (snd ?a)) = 1"
    by (auto dest!: completed_run
        simp: max_consecutive_failures_def state_with_fields count_skipped_def)
  from t [where sc = Replacer and e = env_ok and l = initial_locals and u = "()"
      and l' = "fst (snd ?r)" and st' = "snd (snd ?r)"] env_ok_sleeps l
  have r: "fst ?r = Inr ()" "slept (snd (snd ?r)) = [3]" "failed_files (fst (snd ?r)) = [''a.md'']"
    by (auto dest!: completed_run
        simp: max_consecutive_failures_def state_with_fields basename_a_md)
  from a r show ?thesis by simp
qed

theorem no_placeholder_recorded_as_failed:
  "\<not> isin PLACEHOLDER_IMAGE_URL doc_plain
   \<and> process_file Replacer env_ok a_md initial_locals (state_with doc_plain) =
       (Inr (),
        \<lparr>success_count = 0, failed_files = [''a.md''], current_delay = 3, consecutive_failures = 1\<rparr>,
        (state_with doc_plain)\<lparr>slept := [3]\<rparr>)"
  using doc_plain_facts drive_plain_first by simp

subsection \<open>Exceptions of the upload and of the image API stay inside the retries\<close>






subsection \<open>No exception stops the batch\<close>






subsection \<open>When every upload raises\<close>





















subsection \<open>The delays of the two retry loops\<close>























end
